theory Spec2Isabelle
  imports Main "HOL-Library.Word" "HOL-Library.Sublist" "HOL-Library.Char_ord"
    "HOL-Library.List_Lexorder"
begin

unbundle bit_operations_syntax

section \<open>DDC-CI frames (main.go, getChecksum and the frame built in setVCP)\<close>

type_synonym u8 = "8 word"
type_synonym u16 = "16 word"

text \<open>
  \<^verbatim>\<open>func getChecksum(data []byte) byte\<close>: the accumulator starts at 0x6E and every byte of
  \<open>data\<close> is XORed into it, left to right. \<open>checksum_loop\<close> is the \<^verbatim>\<open>for _, b := range data\<close>
  loop with the running value of \<^verbatim>\<open>checksum\<close> as its first argument.
\<close>

fun checksum_loop :: "u8 \<Rightarrow> u8 list \<Rightarrow> u8" where
  "checksum_loop checksum [] = checksum"
| "checksum_loop checksum (b # data) = checksum_loop (checksum XOR b) data"

definition getChecksum :: "u8 list \<Rightarrow> u8" where
  "getChecksum data = checksum_loop 0x6E data"

text \<open>
  The two statements of \<^verbatim>\<open>setVCP\<close> that build the SET frame:
  \<^verbatim>\<open>data := []byte{0x51, 0x84, 0x03, vcp, byte(value >> 8), byte(value & 0xFF)}\<close> and
  \<^verbatim>\<open>data = append(data, getChecksum(data))\<close>. The conversion \<^verbatim>\<open>byte(x)\<close> of a
  \<^verbatim>\<open>uint16\<close> keeps the low eight bits (\<open>ucast\<close>).
\<close>

definition setVCP_data :: "u8 \<Rightarrow> u16 \<Rightarrow> u8 list" where
  "setVCP_data vcp val = [0x51, 0x84, 0x03, vcp, ucast (drop_bit 8 val), ucast (val AND 0xFF)]"

definition setVCP_frame :: "u8 \<Rightarrow> u16 \<Rightarrow> u8 list" where
  "setVCP_frame vcp val = (let data = setVCP_data vcp val in data @ [getChecksum data])"

text \<open>The GET request of \<^verbatim>\<open>getVCP\<close>: \<^verbatim>\<open>req := []byte{0x51, 0x82, 0x01, vcp}\<close> plus its checksum.\<close>

definition getVCP_req :: "u8 \<Rightarrow> u8 list" where
  "getVCP_req vcp = (let req = [0x51, 0x82, 0x01, vcp] in req @ [getChecksum req])"

section \<open>Go library functions called by main.go\<close>

text \<open>
  A Go string is a sequence of bytes, here a \<open>string\<close> (a list of 8-bit characters);
  \<^verbatim>\<open>string(b)\<close> and \<^verbatim>\<open>[]byte(s)\<close> convert between a byte slice and a string.
\<close>

definition string_of_bytes :: "u8 list \<Rightarrow> string" where
  "string_of_bytes bs = map (\<lambda>b. char_of (unat b)) bs"

definition bytes_of_string :: "string \<Rightarrow> u8 list" where
  "bytes_of_string s = map of_char s"

text \<open>
  \<^verbatim>\<open>strings.ToLower\<close> and \<^verbatim>\<open>strings.ToUpper\<close> on the ASCII letters. Bytes from 0x80 on are
  left as they are: Go decodes them as UTF-8 and maps the letters of other scripts too, which
  is outside this model.
\<close>

definition lowerChar :: "char \<Rightarrow> char" where
  "lowerChar c = (if 65 \<le> (of_char c :: nat) \<and> (of_char c :: nat) \<le> 90
                  then char_of ((of_char c :: nat) + 32) else c)"

definition upperChar :: "char \<Rightarrow> char" where
  "upperChar c = (if 97 \<le> (of_char c :: nat) \<and> (of_char c :: nat) \<le> 122
                  then char_of ((of_char c :: nat) - 32) else c)"

definition ToLower :: "string \<Rightarrow> string" where
  "ToLower s = map lowerChar s"

definition ToUpper :: "string \<Rightarrow> string" where
  "ToUpper s = map upperChar s"

text \<open>
  \<^verbatim>\<open>strings.Contains(s, substr)\<close> and \<^verbatim>\<open>bytes.Contains(b, subslice)\<close>: whether \<open>substr\<close>
  occurs in \<open>s\<close> as a contiguous run; the empty \<open>substr\<close> occurs in every \<open>s\<close>.
\<close>

fun Contains :: "'a list \<Rightarrow> 'a list \<Rightarrow> bool" where
  "Contains [] substr = (substr = [])"
| "Contains (c # s) substr = (prefix substr (c # s) \<or> Contains s substr)"

text \<open>
  \<^verbatim>\<open>strings.TrimSpace\<close>: leading and trailing white space removed. The white space here is
  Go's ASCII set (tab, line feed, vertical tab, form feed, carriage return, space); on a
  string of bytes below 0x80 this is exactly what Go does. Go also strips the Unicode spaces
  that are encoded in several bytes, which is outside this model.
\<close>

definition asciiSpace :: "char \<Rightarrow> bool" where
  "asciiSpace c = (c \<in> set [CHR 0x09, CHR 0x0A, CHR 0x0B, CHR 0x0C, CHR 0x0D, CHR 0x20])"

definition TrimSpace :: "string \<Rightarrow> string" where
  "TrimSpace s = rev (dropWhile asciiSpace (rev (dropWhile asciiSpace s)))"

text \<open>
  \<^verbatim>\<open>fmt.Sscanf(s, format, &v)\<close> for the two formats of main.go, \<^verbatim>\<open>"%x"\<close> and \<^verbatim>\<open>"0x%x"\<close>, and
  an unsigned integer \<open>v\<close> of \<open>bitSize\<close> bits. The result is \<open>Some i\<close> when Sscanf stores
  \<open>i\<close> in \<open>v\<close>, and \<open>None\<close> when it returns an error and leaves \<open>v\<close> as it was
  (the number scanned is an \<open>int\<close> here, with Go's range checks written out).
  The verb \<^verbatim>\<open>%x\<close> skips leading blanks (a line feed there is an error), needs at least one
  hexadecimal digit, reads the longest run of hexadecimal digits, and fails when the number
  does not fit in 64 bits or in \<open>bitSize\<close> bits. What follows the digits is not looked at.
  The literal \<^verbatim>\<open>0x\<close> of the second format must be the first two bytes of the input.
\<close>

definition hexadecimalDigits :: string where
  "hexadecimalDigits = ''0123456789aAbBcCdDeEfF''"

definition hexDigitValue :: "char \<Rightarrow> int" where
  "hexDigitValue c =
     (let n = (of_char c :: int) in
      if 48 \<le> n \<and> n \<le> 57 then n - 48
      else if 97 \<le> n \<and> n \<le> 102 then n - 87
      else n - 55)"

fun SkipSpace :: "string \<Rightarrow> string option" where
  "SkipSpace [] = Some []"
| "SkipSpace (r # rest) =
     (if r = CHR 0x0A then None
      else if asciiSpace r then SkipSpace rest
      else Some (r # rest))"

definition ParseUint16 :: "string \<Rightarrow> int" where
  "ParseUint16 tok = foldl (\<lambda>n c. 16 * n + hexDigitValue c) 0 tok"

definition scanUint_hex :: "nat \<Rightarrow> string \<Rightarrow> int option" where
  "scanUint_hex bitSize input =
     (case SkipSpace input of
        None \<Rightarrow> None
      | Some rest \<Rightarrow>
          (let tok = takeWhile (\<lambda>c. c \<in> set hexadecimalDigits) rest in
           if tok = [] then None
           else if 2 ^ 64 \<le> ParseUint16 tok then None
           else if 2 ^ bitSize \<le> ParseUint16 tok then None
           else Some (ParseUint16 tok)))"

definition Sscanf_x :: "nat \<Rightarrow> string \<Rightarrow> int option" where
  "Sscanf_x bitSize s = scanUint_hex bitSize s"

definition Sscanf_0x_x :: "nat \<Rightarrow> string \<Rightarrow> int option" where
  "Sscanf_0x_x bitSize s =
     (if take 2 s = ''0x'' then scanUint_hex bitSize (drop 2 s) else None)"

text \<open>
  \<^verbatim>\<open>fmt\<close>'s \<^verbatim>\<open>%v\<close> of a \<^verbatim>\<open>map[string]string\<close>: \<^verbatim>\<open>map[k1:v1 k2:v2]\<close>, the entries in the
  order of their keys.
\<close>

fun join :: "string \<Rightarrow> string list \<Rightarrow> string" where
  "join sep [] = []"
| "join sep [x] = x"
| "join sep (x # y # ys) = x @ sep @ join sep (y # ys)"

definition fmt_map :: "(string \<times> string) list \<Rightarrow> string" where
  "fmt_map m = ''map['' @ join '' '' (map (\<lambda>(k, v). k @ '':'' @ v) (sort_key fst m)) @ '']''"

section \<open>Hexadecimal codes and values (main.go, parseHex and parseHex16)\<close>

text \<open>
  \<^verbatim>\<open>func parseHex(s string) byte\<close>: \<open>b\<close> starts as 0; the first Sscanf, with format
  \<^verbatim>\<open>"0x%x"\<close>, stores into it when it succeeds; when \<open>b\<close> is 0 after that, the second Sscanf,
  with format \<^verbatim>\<open>"%x"\<close>, does the same. The errors of both calls are dropped and \<open>b\<close> is
  returned: the function has no error result. \<open>parseHex16\<close> is the same on a \<^verbatim>\<open>uint16\<close>.
\<close>

definition parseHex :: "string \<Rightarrow> u8" where
  "parseHex s =
     (let b = (case Sscanf_0x_x 8 s of Some i \<Rightarrow> word_of_int i | None \<Rightarrow> 0) in
      if b = 0 then (case Sscanf_x 8 s of Some i \<Rightarrow> word_of_int i | None \<Rightarrow> b) else b)"

definition parseHex16 :: "string \<Rightarrow> u16" where
  "parseHex16 s =
     (let v = (case Sscanf_0x_x 16 s of Some i \<Rightarrow> word_of_int i | None \<Rightarrow> 0) in
      if v = 0 then (case Sscanf_x 16 s of Some i \<Rightarrow> word_of_int i | None \<Rightarrow> v) else v)"

section \<open>Configuration data (main.go, the struct types)\<close>

text \<open>
  A Go map with string keys is the list of its entries, each key once, looked up with
  \<open>map_of\<close>. A \<^verbatim>\<open>*MonitorConfig\<close> is the config it points to, \<open>nil\<close> is \<open>None\<close>: no
  config is changed after it is loaded.
\<close>

record FeatureConfig =
  VCP :: string
  Values :: "(string \<times> string) list"

record MonitorConfig =
  Model :: string
  Match :: string
  Features :: "(string \<times> FeatureConfig) list"
  Presets :: "(string \<times> (string \<times> string) list) list"

record Device =
  Bus :: string
  Name :: string
  Config :: "MonitorConfig option"

section \<open>The bus and the other effects\<close>

text \<open>
  A Go \<^verbatim>\<open>error\<close> value: one made by \<^verbatim>\<open>fmt.Errorf\<close> with its message, the error of a failed
  system call with its number, or \<^verbatim>\<open>io.EOF\<close>. A function returning \<^verbatim>\<open>error\<close> returns an
  \<open>error option\<close>, \<open>None\<close> for \<open>nil\<close>.
\<close>

datatype error = Errorf string | Errno nat | EOF

text \<open>A run-time panic of an index expression: the index and the length of the slice.\<close>

datatype panic = IndexOutOfRange nat nat

text \<open>
  What the program does to the outside is recorded in a trace: every \<^verbatim>\<open>f.Write\<close> on a bus
  with its bytes (issued, whether or not it succeeds), every \<^verbatim>\<open>time.Sleep\<close> with its
  milliseconds, the line \<^verbatim>\<open>Error applying <feature>: <error>\<close> printed to standard error, and
  every entry into \<open>applyFeature\<close> with its feature name and value label. The diagnostic
  lines of \<^verbatim>\<open>logVerbose\<close> are left out: they go to standard error only and decide nothing.

  What the outside does to the program is a script: the outcomes of the system calls to come
  (open, ioctl, write, read), in order. \<open>Fails e\<close> is a call failing with error number
  \<open>e\<close>; \<open>Gives bs\<close> is a call that succeeds, a read delivering the bytes \<open>bs\<close>. Once the
  script is used up every call succeeds and every read delivers nothing.
\<close>

datatype event =
    Write string "u8 list"
  | Sleep nat
  | ErrorApplying string error
  | Call_applyFeature string string

datatype outcome = Fails nat | Gives "u8 list"

record world =
  script :: "outcome list"
  trace :: "event list"

definition emit :: "event \<Rightarrow> world \<Rightarrow> world" where
  "emit e w = w\<lparr>trace := trace w @ [e]\<rparr>"

definition syscall :: "world \<Rightarrow> outcome \<times> world" where
  "syscall w = (case script w of [] \<Rightarrow> (Gives [], w) | r # rs \<Rightarrow> (r, w\<lparr>script := rs\<rparr>))"

text \<open>
  \<^verbatim>\<open>buf := make([]byte, len); n, err := f.Read(buf)\<close>: the buffer starts as zeros, a
  successful read fills its first \<open>n\<close> bytes, and a read of no bytes returns \<open>io.EOF\<close>.
\<close>

definition Read :: "nat \<Rightarrow> outcome \<Rightarrow> nat \<times> u8 list \<times> error option" where
  "Read len r =
     (case r of
        Fails e \<Rightarrow> (0, replicate len 0, Some (Errno e))
      | Gives bs \<Rightarrow>
          if bs = [] then (0, replicate len 0, Some EOF)
          else (min len (length bs), take len bs @ replicate (len - length bs) 0, None))"

section \<open>Writing a VCP value (main.go, setVCP)\<close>

text \<open>
  The retry loop of \<open>setVCP\<close>: \<^verbatim>\<open>for retry := 0; retry < 3; retry++\<close>, returning \<open>nil\<close> at
  the first write that succeeds, sleeping 200 ms after one that fails, and returning the
  last error after three failures.
\<close>

function setVCP_write ::
  "string \<Rightarrow> u8 list \<Rightarrow> nat \<Rightarrow> error option \<Rightarrow> world \<Rightarrow> error option \<times> world" where
  "setVCP_write bus data retry lastErr w =
     (if retry < 3 then
        (case syscall (emit (Write bus data) w) of
           (Gives _, w1) \<Rightarrow> (None, w1)
         | (Fails e, w1) \<Rightarrow> setVCP_write bus data (retry + 1) (Some (Errno e)) (emit (Sleep 200) w1))
      else (lastErr, w))"
  by pat_completeness auto
termination
  by (relation "measure (\<lambda>(bus, data, retry, lastErr, w). 3 - retry)") auto

text \<open>
  \<open>setVCP\<close>: open the bus (\<^verbatim>\<open>os.OpenFile\<close>), address the display (\<^verbatim>\<open>ioctl\<close> with
  \<^verbatim>\<open>I2C_SLAVE\<close> and \<^verbatim>\<open>DDC_ADDR\<close>), build the frame and write it with retries. Either of the
  first two failing returns its error at once.
\<close>

definition setVCP :: "string \<Rightarrow> u8 \<Rightarrow> u16 \<Rightarrow> world \<Rightarrow> error option \<times> world" where
  "setVCP bus vcp val w =
     (case syscall w of
        (Fails e, w1) \<Rightarrow> (Some (Errno e), w1)
      | (Gives _, w1) \<Rightarrow>
          (case syscall w1 of
             (Fails errno, w2) \<Rightarrow> (Some (Errno errno), w2)
           | (Gives _, w2) \<Rightarrow> setVCP_write bus (setVCP_frame vcp val) 0 None w2))"

section \<open>Reading a VCP value (main.go, getVCP)\<close>

text \<open>
  An index expression \<^verbatim>\<open>reply[i]\<close>: Go panics when \<open>i\<close> is not below the length of the
  slice.
\<close>

definition index :: "'a list \<Rightarrow> nat \<Rightarrow> panic + 'a" where
  "index xs i = (if i < length xs then Inr (xs ! i) else Inl (IndexOutOfRange i (length xs)))"

text \<open>\<^verbatim>\<open>uint16(hi)<<8 | uint16(lo)\<close>.\<close>

definition be16 :: "u8 \<Rightarrow> u8 \<Rightarrow> u16" where
  "be16 hi lo = push_bit 8 (ucast hi) OR ucast lo"

text \<open>
  The marker scan, \<^verbatim>\<open>for i := 0; i < n-5; i++\<close>, from the index \<open>i\<close> on. \<open>n\<close> is a Go
  \<^verbatim>\<open>int\<close>. The result is \<open>Inr (Some v)\<close> when the loop returns the value \<open>v\<close> from
  \<open>getVCP\<close>, \<open>Inr None\<close> when the loop ends without a match, and \<open>Inl p\<close> when an index
  expression panics. The operands of \<^verbatim>\<open>&&\<close> and of \<^verbatim>\<open>|\<close> are evaluated left to right, the
  right operand of \<^verbatim>\<open>&&\<close> only when the left one holds.
\<close>

function scan_marker :: "u8 list \<Rightarrow> int \<Rightarrow> u8 \<Rightarrow> nat \<Rightarrow> panic + u16 option" where
  "scan_marker reply n vcp i =
     (if int i < n - 5 then
        (case index reply i of
           Inl p \<Rightarrow> Inl p
         | Inr b0 \<Rightarrow>
             if b0 = 0x02 then
               (case index reply (i + 2) of
                  Inl p \<Rightarrow> Inl p
                | Inr b2 \<Rightarrow>
                    if b2 = vcp then
                      (case index reply (i + 6) of
                         Inl p \<Rightarrow> Inl p
                       | Inr hi \<Rightarrow>
                           (case index reply (i + 7) of
                              Inl p \<Rightarrow> Inl p
                            | Inr lo \<Rightarrow> Inr (Some (be16 hi lo))))
                    else scan_marker reply n vcp (i + 1))
             else scan_marker reply n vcp (i + 1))
      else Inr None)"
  by pat_completeness auto
termination
  by (relation "measure (\<lambda>(reply, n, vcp, i). nat (n - 5) - i)") auto

text \<open>
  The body of \<^verbatim>\<open>if err == nil && n >= 10\<close>: the marker scan, then the test of the first
  byte against 0x6E with the value at the indices 8 and 9.
\<close>

definition parse_reply :: "u8 list \<Rightarrow> int \<Rightarrow> u8 \<Rightarrow> panic + u16 option" where
  "parse_reply reply n vcp =
     (case scan_marker reply n vcp 0 of
        Inl p \<Rightarrow> Inl p
      | Inr (Some v) \<Rightarrow> Inr (Some v)
      | Inr None \<Rightarrow>
          (case index reply 0 of
             Inl p \<Rightarrow> Inl p
           | Inr b0 \<Rightarrow>
               if b0 = 0x6e then
                 (case index reply 8 of
                    Inl p \<Rightarrow> Inl p
                  | Inr hi \<Rightarrow>
                      (case index reply 9 of
                         Inl p \<Rightarrow> Inl p
                       | Inr lo \<Rightarrow> Inr (Some (be16 hi lo))))
               else Inr None))"

text \<open>
  The read cycles, \<^verbatim>\<open>for retry := 0; retry < 2; retry++\<close>: sleep 150 ms, read into a fresh
  buffer of 16 bytes, and parse the reply when the read succeeded with at least 10 bytes.
  \<open>getVCP\<close> returns a pair \<^verbatim>\<open>(uint16, error)\<close>, or panics.
\<close>

function getVCP_read ::
  "u8 \<Rightarrow> nat \<Rightarrow> world \<Rightarrow> (panic + u16 \<times> error option) \<times> world" where
  "getVCP_read vcp retry w =
     (if retry < 2 then
        (case syscall (emit (Sleep 150) w) of
           (r, w1) \<Rightarrow>
             (case Read 16 r of
                (n, reply, err) \<Rightarrow>
                  if err = None \<and> n \<ge> 10 then
                    (case parse_reply reply (int n) vcp of
                       Inl p \<Rightarrow> (Inl p, w1)
                     | Inr (Some v) \<Rightarrow> (Inr (v, None), w1)
                     | Inr None \<Rightarrow> getVCP_read vcp (retry + 1) w1)
                  else getVCP_read vcp (retry + 1) w1))
      else (Inr (0, Some (Errorf ''failed read'')), w))"
  by pat_completeness auto
termination
  by (relation "measure (\<lambda>(vcp, retry, w). 2 - retry)") auto

definition getVCP :: "string \<Rightarrow> u8 \<Rightarrow> world \<Rightarrow> (panic + u16 \<times> error option) \<times> world" where
  "getVCP bus vcp w =
     (case syscall w of
        (Fails e, w1) \<Rightarrow> (Inr (0, Some (Errno e)), w1)
      | (Gives _, w1) \<Rightarrow>
          (case syscall w1 of
             (Fails errno, w2) \<Rightarrow> (Inr (0, Some (Errno errno)), w2)
           | (Gives _, w2) \<Rightarrow>
               (case syscall (emit (Write bus (getVCP_req vcp)) w2) of
                  (Fails e, w3) \<Rightarrow> (Inr (0, Some (Errno e)), w3)
                | (Gives _, w3) \<Rightarrow> getVCP_read vcp 0 w3)))"

section \<open>Identifying a monitor (main.go, getMonitorName and discoverDevices)\<close>

text \<open>
  The descriptor loop of \<open>getMonitorName\<close>, \<^verbatim>\<open>for j := 54; j < 108; j += 18\<close>, from the
  offset \<open>j\<close> on: the first slot whose first four bytes are 00 00 00 FC gives the name,
  \<^verbatim>\<open>strings.TrimSpace(string(edid[j+5 : j+18]))\<close>, and ends the loop; the name stays empty
  when the loop ends without such a slot. \<open>edid\<close> is the buffer of 128 bytes, so every
  index and the slice are in range.
\<close>

function scan_descriptors :: "u8 list \<Rightarrow> nat \<Rightarrow> string" where
  "scan_descriptors edid j =
     (if j < 108 then
        (if edid ! j = 0 \<and> edid ! (j + 1) = 0 \<and> edid ! (j + 2) = 0 \<and> edid ! (j + 3) = 0xfc
         then TrimSpace (string_of_bytes (take 13 (drop (j + 5) edid)))
         else scan_descriptors edid (j + 18))
      else [])"
  by pat_completeness auto
termination
  by (relation "measure (\<lambda>(edid, j). 108 - j)") auto

text \<open>
  The name of an EDID block: the descriptor loop from offset 54, and when that leaves the
  name empty, the two substring tests on the raw bytes.
\<close>

definition edid_name :: "u8 list \<Rightarrow> string" where
  "edid_name edid =
     (let name = scan_descriptors edid 54 in
      if name = [] then
        (if Contains edid (bytes_of_string ''U4021QW'') then ''Dell U4021QW''
         else if Contains edid (bytes_of_string ''DELL'') then ''DELL Monitor''
         else name)
      else name)"

text \<open>
  \<open>getMonitorName\<close>: open the bus, address the EDID (\<^verbatim>\<open>ioctl\<close> with \<^verbatim>\<open>I2C_SLAVE\<close> and
  \<^verbatim>\<open>EDID_ADDR\<close>), read into a buffer of 128 bytes; any of the three failing gives the empty
  name.
\<close>

definition getMonitorName :: "string \<Rightarrow> world \<Rightarrow> string \<times> world" where
  "getMonitorName bus w =
     (case syscall w of
        (Fails e, w1) \<Rightarrow> ([], w1)
      | (Gives _, w1) \<Rightarrow>
          (case syscall w1 of
             (Fails errno, w2) \<Rightarrow> ([], w2)
           | (Gives _, w2) \<Rightarrow>
               (case syscall w2 of
                  (r, w3) \<Rightarrow>
                    (case Read 128 r of
                       (n, edid, err) \<Rightarrow>
                         if err \<noteq> None then ([], w3) else (edid_name edid, w3)))))"

text \<open>
  The inner loop of \<open>discoverDevices\<close>, \<^verbatim>\<open>for i := range configs\<close>: the first config whose
  upper-cased \<open>Match\<close> is contained in the upper-cased name, \<open>nil\<close> when there is none.
\<close>

fun matchConfig :: "string \<Rightarrow> MonitorConfig list \<Rightarrow> MonitorConfig option" where
  "matchConfig name [] = None"
| "matchConfig name (c # configs) =
     (if Contains (ToUpper name) (ToUpper (Match c)) then Some c
      else matchConfig name configs)"

text \<open>
  \<open>discoverDevices\<close> over the bus paths that \<^verbatim>\<open>filepath.Glob("/dev/i2c-*")\<close> returned,
  here the argument \<open>matches\<close>: a bus with an empty name is skipped, any other becomes a
  device with the config matched to its name.
\<close>

fun discoverDevices :: "MonitorConfig list \<Rightarrow> string list \<Rightarrow> world \<Rightarrow> Device list \<times> world" where
  "discoverDevices configs [] w = ([], w)"
| "discoverDevices configs (bus # matches) w =
     (case getMonitorName bus w of
        (name, w1) \<Rightarrow>
          if name = [] then discoverDevices configs matches w1
          else
            (case discoverDevices configs matches w1 of
               (devices, w2) \<Rightarrow>
                 (\<lparr>Bus = bus, Name = name, Config = matchConfig name configs\<rparr> # devices, w2)))"

section \<open>Applying a feature and a preset (main.go, applyFeature and main)\<close>

text \<open>
  \<open>applyFeature\<close>: no config, an unknown feature name, or a value label whose lower-cased
  form is not a key of the feature's values each return an error made by \<^verbatim>\<open>fmt.Errorf\<close>;
  otherwise the code and the value are parsed and written with \<open>setVCP\<close>.
  \<^verbatim>\<open>%v\<close> of the values prints the whole map.
\<close>

definition applyFeature :: "Device \<Rightarrow> string \<Rightarrow> string \<Rightarrow> world \<Rightarrow> error option \<times> world" where
  "applyFeature target featureName valueLabel w0 =
     (let w = emit (Call_applyFeature featureName valueLabel) w0 in
      case Config target of
        None \<Rightarrow> (Some (Errorf ''no config for this monitor''), w)
      | Some config \<Rightarrow>
          (case map_of (Features config) featureName of
             None \<Rightarrow> (Some (Errorf (''feature '' @ featureName @ '' not defined'')), w)
           | Some feat \<Rightarrow>
               (case map_of (Values feat) (ToLower valueLabel) of
                  None \<Rightarrow>
                    (Some (Errorf (''invalid value '' @ valueLabel @ '' for '' @ featureName
                                   @ ''. Options: '' @ fmt_map (Values feat))), w)
                | Some valStr \<Rightarrow>
                    setVCP (Bus target) (parseHex (VCP feat)) (parseHex16 valStr) w)))"

text \<open>
  The loop of \<open>main\<close> over the chosen order, \<^verbatim>\<open>for _, featName := range order\<close>: a feature
  the preset defines is applied, an error is printed and nothing else is done about it, and
  the settle delay follows (2 s after \<^verbatim>\<open>pbp_mode\<close> and \<^verbatim>\<open>input_source\<close>, 1 s after any other);
  a feature the preset does not define is passed over.
\<close>

fun apply_order :: "Device \<Rightarrow> (string \<times> string) list \<Rightarrow> string list \<Rightarrow> world \<Rightarrow> world" where
  "apply_order target preset [] w = w"
| "apply_order target preset (featName # order) w =
     (case map_of preset featName of
        None \<Rightarrow> apply_order target preset order w
      | Some valLabel \<Rightarrow>
          (case applyFeature target featName valLabel w of
             (err, w1) \<Rightarrow>
               (let w2 = (case err of None \<Rightarrow> w1 | Some e \<Rightarrow> emit (ErrorApplying featName e) w1);
                    w3 = (if featName = ''pbp_mode'' \<or> featName = ''input_source''
                          then emit (Sleep 2000) w2 else emit (Sleep 1000) w2)
                in apply_order target preset order w3)))"

text \<open>
  The preset branch of \<open>main\<close> from \<^verbatim>\<open>var order []string\<close> on. \<^verbatim>\<open>preset["pbp_mode"]\<close> is the
  empty string when the preset has no such key. The result of the reset call is dropped.
\<close>

definition applyPreset :: "Device \<Rightarrow> (string \<times> string) list \<Rightarrow> world \<Rightarrow> world" where
  "applyPreset target preset w =
     (let targetPbpMode = (case map_of preset ''pbp_mode'' of None \<Rightarrow> [] | Some v \<Rightarrow> v) in
      if targetPbpMode = ''off'' then
        apply_order target preset [''pbp_mode'', ''input_source'', ''usb_selection''] w
      else
        (case applyFeature target ''pbp_mode'' ''off'' w of
           (_, w1) \<Rightarrow>
             apply_order target preset
               [''input_source'', ''pbp_mode'', ''pbp_sub_input'', ''usb_selection'']
               (emit (Sleep 2000) w1)))"

text \<open>The calls of \<open>applyFeature\<close> in a trace, in order, each with its feature and label.\<close>

fun calls :: "event list \<Rightarrow> (string \<times> string) list" where
  "calls [] = []"
| "calls (Call_applyFeature f l # es) = (f, l) # calls es"
| "calls (_ # es) = calls es"

text \<open>The features of an order that a preset defines, each with the preset's label.\<close>

fun defined_in :: "(string \<times> string) list \<Rightarrow> string list \<Rightarrow> (string \<times> string) list" where
  "defined_in preset [] = []"
| "defined_in preset (f # order) =
     (case map_of preset f of
        None \<Rightarrow> defined_in preset order
      | Some l \<Rightarrow> (f, l) # defined_in preset order)"

text \<open>What \<open>setVCP\<close> adds to the trace: writes and sleeps, no call and no report.\<close>

fun bus_event :: "event \<Rightarrow> bool" where
  "bus_event (Write bus data) = True"
| "bus_event (Sleep ms) = True"
| "bus_event _ = False"

text \<open>
  The test of the marker scan at the offset \<open>i\<close>: the marker byte 0x02 at \<open>i\<close> and the
  requested code two bytes further.
\<close>

definition marker_at :: "u8 list \<Rightarrow> u8 \<Rightarrow> nat \<Rightarrow> bool" where
  "marker_at reply vcp i = (reply ! i = 0x02 \<and> reply ! (i + 2) = vcp)"

text \<open>
  The part of \<open>applyFeature\<close> before its call of \<open>setVCP\<close>, as a value: the error that
  \<open>applyFeature\<close> returns without touching the bus, or the code and the value that it
  passes to \<open>setVCP\<close>. The lemma \<open>applyFeature_resolve\<close> below is the proof that
  \<open>applyFeature\<close> does exactly this.
\<close>

definition resolve :: "Device \<Rightarrow> string \<Rightarrow> string \<Rightarrow> error + u8 \<times> u16" where
  "resolve target featureName valueLabel =
     (case Config target of
        None \<Rightarrow> Inl (Errorf ''no config for this monitor'')
      | Some config \<Rightarrow>
          (case map_of (Features config) featureName of
             None \<Rightarrow> Inl (Errorf (''feature '' @ featureName @ '' not defined''))
           | Some feat \<Rightarrow>
               (case map_of (Values feat) (ToLower valueLabel) of
                  None \<Rightarrow>
                    Inl (Errorf (''invalid value '' @ valueLabel @ '' for '' @ featureName
                                 @ ''. Options: '' @ fmt_map (Values feat)))
                | Some valStr \<Rightarrow> Inr (parseHex (VCP feat), parseHex16 valStr))))"

text \<open>
  What one step of a preset leaves in the trace on a bus whose calls all succeed: the call,
  then one write of the SET frame when the feature and the label resolve, or the printed
  error when they do not, then the settle delay. The reset step is the same, except that its
  error is not printed and its delay is 2 s.
\<close>

definition step_events :: "Device \<Rightarrow> string \<times> string \<Rightarrow> event list" where
  "step_events target step =
     (case step of
        (f, l) \<Rightarrow>
          [Call_applyFeature f l]
          @ (case resolve target f l of
               Inr (vcp, val) \<Rightarrow> [Write (Bus target) (setVCP_frame vcp val)]
             | Inl e \<Rightarrow> [ErrorApplying f e])
          @ [Sleep (if f = ''pbp_mode'' \<or> f = ''input_source'' then 2000 else 1000)])"

definition reset_events :: "Device \<Rightarrow> event list" where
  "reset_events target =
     [Call_applyFeature ''pbp_mode'' ''off'']
     @ (case resolve target ''pbp_mode'' ''off'' of
          Inr (vcp, val) \<Rightarrow> [Write (Bus target) (setVCP_frame vcp val)]
        | Inl e \<Rightarrow> [])
     @ [Sleep 2000]"

section \<open>Checksum and frame layout\<close>

lemma checksum_loop_xor: "checksum_loop c data = c XOR checksum_loop 0 data"
proof (induction data arbitrary: c)
  case Nil
  show ?case by simp
next
  case (Cons b data)
  have "checksum_loop c (b # data) = (c XOR b) XOR checksum_loop 0 data"
    using Cons.IH [of "c XOR b"] by simp
  also have "\<dots> = c XOR (b XOR checksum_loop 0 data)"
    by (simp add: xor.assoc)
  also have "b XOR checksum_loop 0 data = checksum_loop 0 (b # data)"
    using Cons.IH [of "0 XOR b"] by simp
  finally show ?case .
qed

lemma checksum_loop_append:
  "checksum_loop c (xs @ ys) = checksum_loop (checksum_loop c xs) ys"
  by (induction xs arbitrary: c) simp_all

lemma xor_cancel_left: "(a :: u8) XOR x = a XOR y \<Longrightarrow> x = y"
proof -
  assume h: "a XOR x = a XOR y"
  have "x = a XOR (a XOR x)" by (simp add: xor.assoc [symmetric])
  also have "\<dots> = a XOR (a XOR y)" by (simp only: h)
  also have "\<dots> = y" by (simp add: xor.assoc [symmetric])
  finally show ?thesis .
qed

lemma checksum_loop_inj: "checksum_loop c xs = checksum_loop d xs \<Longrightarrow> c = d"
proof -
  assume h: "checksum_loop c xs = checksum_loop d xs"
  have "c XOR checksum_loop 0 xs = d XOR checksum_loop 0 xs"
    using h checksum_loop_xor [of c xs] checksum_loop_xor [of d xs] by simp
  then have "checksum_loop 0 xs XOR c = checksum_loop 0 xs XOR d"
    by (simp add: xor.commute)
  then show ?thesis by (rule xor_cancel_left)
qed

lemma checksum_update_differs:
  assumes "i < length payload" and "b \<noteq> payload ! i"
  shows "checksum_loop c (payload[i := b]) \<noteq> checksum_loop c payload"
proof
  assume eq: "checksum_loop c (payload[i := b]) = checksum_loop c payload"
  let ?pre = "take i payload" and ?post = "drop (Suc i) payload"
  have new: "payload[i := b] = ?pre @ b # ?post"
    using assms(1) by (simp add: upd_conv_take_nth_drop)
  have old: "payload = ?pre @ (payload ! i) # ?post"
    using assms(1) by (simp add: id_take_nth_drop [symmetric])
  let ?c = "checksum_loop c ?pre"
  have "checksum_loop (?c XOR b) ?post = checksum_loop c (?pre @ b # ?post)"
    by (simp add: checksum_loop_append)
  also have "\<dots> = checksum_loop c (?pre @ (payload ! i) # ?post)"
    using eq new old by metis
  also have "\<dots> = checksum_loop (?c XOR payload ! i) ?post"
    by (simp add: checksum_loop_append)
  finally have "?c XOR b = ?c XOR payload ! i"
    by (rule checksum_loop_inj)
  then have "b = payload ! i" by (rule xor_cancel_left)
  with assms(2) show False by contradiction
qed

lemma byte_of_shifted: "(ucast (drop_bit 8 (val :: u16)) :: u8) = word_of_nat (unat val div 256)"
proof -
  have "(ucast (drop_bit 8 val) :: u8) = word_of_nat (unat (drop_bit 8 val))"
    by (simp only: of_nat_unat)
  also have "unat (drop_bit 8 val) = unat val div 256"
    by (simp add: drop_bit_eq_div unat_div)
  finally show ?thesis .
qed

lemma byte_of_masked: "(ucast ((val :: u16) AND 0xFF) :: u8) = word_of_nat (unat val mod 256)"
proof -
  have m: "(0xFF :: u16) = mask 8" by (simp add: mask_eq_exp_minus_1)
  have "(ucast (val AND 0xFF) :: u8) = word_of_nat (unat (val AND 0xFF))"
    by (simp only: of_nat_unat)
  also have "unat (val AND 0xFF) = unat val mod 256"
    unfolding m by (simp add: take_bit_eq_mask [symmetric] take_bit_eq_mod unat_mod)
  finally show ?thesis .
qed

lemma setVCP_frame_bytes:
  "setVCP_frame vcp val =
     [0x51, 0x84, 0x03, vcp, word_of_nat (unat val div 256), word_of_nat (unat val mod 256),
      (((((0x6E XOR 0x51) XOR 0x84) XOR 0x03) XOR vcp)
        XOR word_of_nat (unat val div 256)) XOR word_of_nat (unat val mod 256)]"
  unfolding setVCP_frame_def setVCP_data_def getChecksum_def Let_def
    byte_of_shifted byte_of_masked
  by simp

lemma setVCP_frame_checksum_last:
  "last (setVCP_frame vcp val) = getChecksum (butlast (setVCP_frame vcp val))"
  by (simp add: setVCP_frame_def Let_def)

lemma setVCP_frame_example:
  "setVCP_frame 0x60 0x0F11 = [0x51, 0x84, 0x03, 0x60, 0x0F, 0x11, 0xC6]"
  by (simp add: setVCP_frame_def setVCP_data_def getChecksum_def Let_def)

lemma getChecksum_foldl: "getChecksum data = foldl (XOR) 0x6E data"
proof -
  have "checksum_loop c data = foldl (XOR) c data" for c
    by (induction data arbitrary: c) simp_all
  then show ?thesis by (simp add: getChecksum_def)
qed

text \<open>
  C5. For every VCP code and 16-bit value the SET frame built in \<open>setVCP\<close> is exactly the seven
  bytes 0x51, 0x84, 0x03, the VCP code, the high byte of the value (value div 256), its low
  byte (value mod 256) and the checksum; the checksum is the XOR-fold (\<open>getChecksum\<close>) of the
  six bytes before it, that is the seed 0x6E XORed with each of them in turn. For vcp = 0x60
  and value = 0x0F11 the frame is 51 84 03 60 0F 11 C6.
\<close>

theorem setVCP_frame_layout:
  "setVCP_frame vcp val =
     [0x51, 0x84, 0x03, vcp, word_of_nat (unat val div 256), word_of_nat (unat val mod 256),
      (((((0x6E XOR 0x51) XOR 0x84) XOR 0x03) XOR vcp)
        XOR word_of_nat (unat val div 256)) XOR word_of_nat (unat val mod 256)]
   \<and> last (setVCP_frame vcp val) = getChecksum (butlast (setVCP_frame vcp val))
   \<and> setVCP_frame 0x60 0x0F11 = [0x51, 0x84, 0x03, 0x60, 0x0F, 0x11, 0xC6]"
  using setVCP_frame_bytes [of vcp val] setVCP_frame_checksum_last [of vcp val]
    setVCP_frame_example
  by (simp only: simp_thms)

text \<open>
  C8. The checksum is a function of the payload bytes alone: it is the left-to-right XOR of
  the bytes onto the fixed seed 0x6E, so computing it again gives the same byte. It detects
  every single-byte corruption: replacing the byte at any position of any payload by a
  different byte changes the checksum.
\<close>

theorem getChecksum_single_byte_change:
  "getChecksum payload = foldl (XOR) 0x6E payload
   \<and> (i < length payload \<and> b \<noteq> payload ! i
        \<longrightarrow> getChecksum (payload[i := b]) \<noteq> getChecksum payload)"
  using getChecksum_foldl [of payload] checksum_update_differs [of i payload b "0x6E"]
  by (simp add: getChecksum_def)

theorem getChecksum_single_byte_change_witness:
  "(1 :: nat) < length [0x51, 0x82, 0x01, 0x60 :: u8]
   \<and> (0x84 :: u8) \<noteq> [0x51, 0x82, 0x01, 0x60] ! 1
   \<and> getChecksum ([0x51, 0x82, 0x01, 0x60][1 := 0x84]) \<noteq> getChecksum [0x51, 0x82, 0x01, 0x60]"
  using getChecksum_single_byte_change [of "[0x51, 0x82, 0x01, 0x60]" 1 "0x84"]
  by (simp add: getChecksum_def)

section \<open>Monitor identification\<close>

text \<open>The descriptor loop written out: it looks at the slots at 54, 72 and 90, and at no other.\<close>

lemma scan_descriptors_three_slots:
  "scan_descriptors edid 54 =
     (if edid ! 54 = 0 \<and> edid ! 55 = 0 \<and> edid ! 56 = 0 \<and> edid ! 57 = 0xfc
      then TrimSpace (string_of_bytes (take 13 (drop 59 edid)))
      else if edid ! 72 = 0 \<and> edid ! 73 = 0 \<and> edid ! 74 = 0 \<and> edid ! 75 = 0xfc
      then TrimSpace (string_of_bytes (take 13 (drop 77 edid)))
      else if edid ! 90 = 0 \<and> edid ! 91 = 0 \<and> edid ! 92 = 0 \<and> edid ! 93 = 0xfc
      then TrimSpace (string_of_bytes (take 13 (drop 95 edid)))
      else [])"
proof -
  have end_of_loop: "scan_descriptors edid 108 = []"
    by (subst scan_descriptors.simps) simp
  have s90: "scan_descriptors edid 90 =
     (if edid ! 90 = 0 \<and> edid ! 91 = 0 \<and> edid ! 92 = 0 \<and> edid ! 93 = 0xfc
      then TrimSpace (string_of_bytes (take 13 (drop 95 edid))) else [])"
    by (subst scan_descriptors.simps) (simp add: end_of_loop)
  have s72: "scan_descriptors edid 72 =
     (if edid ! 72 = 0 \<and> edid ! 73 = 0 \<and> edid ! 74 = 0 \<and> edid ! 75 = 0xfc
      then TrimSpace (string_of_bytes (take 13 (drop 77 edid))) else scan_descriptors edid 90)"
    by (subst scan_descriptors.simps) simp
  have s54: "scan_descriptors edid 54 =
     (if edid ! 54 = 0 \<and> edid ! 55 = 0 \<and> edid ! 56 = 0 \<and> edid ! 57 = 0xfc
      then TrimSpace (string_of_bytes (take 13 (drop 59 edid))) else scan_descriptors edid 72)"
    by (subst scan_descriptors.simps) simp
  show ?thesis
    unfolding s54 s72 s90 by simp
qed

text \<open>
  C2. The claim has the descriptor loop visit the four slots at 54, 72, 90 and 108. The loop
  of \<open>getMonitorName\<close> stops before 108 (\<^verbatim>\<open>j < 108\<close>) and visits 54, 72 and 90 only:
  a block whose only name descriptor, 00 00 00 FC 00 "DELL U2720Q" 0A 20, is in the slot at
  108 is named by the substring fallback, "DELL Monitor", while the same descriptor in the
  slot at 90 gives the trimmed name "DELL U2720Q".
\<close>

theorem getMonitorName_skips_slot_108:
  "fst (getMonitorName ''/dev/i2c-7''
      \<lparr>script = [Gives [], Gives [],
                  Gives (replicate 108 0 @ [0x00, 0x00, 0x00, 0xFC, 0x00]
                         @ bytes_of_string ''DELL U2720Q'' @ [0x0A, 0x20] @ replicate 2 0)],
        trace = []\<rparr>) = ''DELL Monitor''
   \<and> fst (getMonitorName ''/dev/i2c-7''
      \<lparr>script = [Gives [], Gives [],
                  Gives (replicate 90 0 @ [0x00, 0x00, 0x00, 0xFC, 0x00]
                         @ bytes_of_string ''DELL U2720Q'' @ [0x0A, 0x20] @ replicate 20 0)],
        trace = []\<rparr>) = ''DELL U2720Q''"
  by code_simp

section \<open>Parsing hexadecimal strings\<close>

text \<open>
  C3. The claim has a malformed hexadecimal string fail with an explicit error. \<open>parseHex\<close>
  and \<open>parseHex16\<close> return a number and nothing else: on the malformed string "invalid"
  they return 0, the value they also return for "0x00" and "0x0000".
\<close>

theorem parseHex_malformed_is_zero:
  "parseHex ''invalid'' = 0 \<and> parseHex ''0x00'' = 0
   \<and> parseHex16 ''invalid'' = 0 \<and> parseHex16 ''0x0000'' = 0"
  by code_simp

section \<open>Reply parsing\<close>

text \<open>
  One step of the marker scan, and the scan for a read count of at most 14: the offsets it
  reaches are at most 8, and no index expression panics.
\<close>

lemma scan_marker_miss:
  assumes "length reply = 16" and "int i < n - 5" and "n \<le> 16"
    and "\<not> marker_at reply vcp i"
  shows "scan_marker reply n vcp i = scan_marker reply n vcp (i + 1)"
proof -
  have "i < 16" and "i + 2 < 16" using assms(2,3) by linarith+
  then show ?thesis
    using assms by (subst scan_marker.simps) (auto simp: index_def marker_at_def)
qed

lemma scan_marker_hit:
  assumes "length reply = 16" and "int i < n - 5" and "i \<le> 8"
    and "marker_at reply vcp i"
  shows "scan_marker reply n vcp i = Inr (Some (be16 (reply ! (i + 6)) (reply ! (i + 7))))"
  using assms by (subst scan_marker.simps) (simp add: index_def marker_at_def)

lemma scan_marker_in_bounds:
  "length reply = 16 \<Longrightarrow> n \<le> 14 \<Longrightarrow> scan_marker reply n vcp i \<noteq> Inl p"
proof (induction reply n vcp i rule: scan_marker.induct)
  case (1 reply n vcp i)
  show ?case
  proof (cases "int i < n - 5")
    case False
    then show ?thesis by (subst scan_marker.simps) simp
  next
    case True
    with "1.prems"(2) have i: "i \<le> 8" by linarith
    have len: "length reply = 16" by (rule "1.prems"(1))
    have at: "index reply i = Inr (reply ! i)"
      using i len by (simp add: index_def)
    have at2: "index reply (i + 2) = Inr (reply ! (i + 2))"
      using i len by (simp add: index_def)
    show ?thesis
    proof (cases "reply ! i = 0x02 \<and> reply ! (i + 2) = vcp")
      case hit: True
      have "scan_marker reply n vcp i = Inr (Some (be16 (reply ! (i + 6)) (reply ! (i + 7))))"
        using len True i hit by (intro scan_marker_hit) (simp_all add: marker_at_def)
      then show ?thesis by simp
    next
      case miss: False
      have next_ok: "scan_marker reply n vcp (i + 1) \<noteq> Inl p"
      proof (cases "reply ! i = 0x02")
        case False
        show ?thesis
          using True at False "1.prems" by (intro "1.IH"(2)) simp_all
      next
        case yes: True
        with miss have "reply ! (i + 2) \<noteq> vcp" by simp
        then show ?thesis
          using True at at2 yes "1.prems" by (intro "1.IH"(1)) simp_all
      qed
      have "scan_marker reply n vcp i = scan_marker reply n vcp (i + 1)"
        using len True _ miss
      proof (rule scan_marker_miss [unfolded marker_at_def])
        show "n \<le> 16" using "1.prems"(2) by simp
      qed
      with next_ok show ?thesis by simp
    qed
  qed
qed

lemma parse_reply_in_bounds:
  assumes "length reply = 16" and "n \<le> 14"
  shows "parse_reply reply n vcp \<noteq> Inl p"
proof (cases "scan_marker reply n vcp 0")
  case (Inl q)
  with scan_marker_in_bounds [OF assms, of vcp 0 q] show ?thesis by simp
next
  case (Inr r)
  show ?thesis
  proof (cases r)
    case (Some v)
    with Inr show ?thesis by (simp add: parse_reply_def)
  next
    case None
    with Inr assms(1) show ?thesis by (simp add: parse_reply_def index_def)
  qed
qed

text \<open>
  C9. The claim has every index of the marker scan stay inside the 16-byte buffer for a read
  count from 10 to 16. With a read count of 16 the scan runs up to \<open>i = 10\<close>; a reply whose
  first marker is there, 0x02 at index 10 and the requested code at index 12, makes \<open>getVCP\<close>
  evaluate \<^verbatim>\<open>reply[16]\<close>, which panics.
\<close>

theorem getVCP_panics_on_late_marker:
  "fst (getVCP ''/dev/i2c-7'' 0x10
      \<lparr>script = [Gives [], Gives [], Gives [],
                  Gives [0, 0, 0, 0, 0, 0, 0, 0, 0, 0, 0x02, 0, 0x10, 0, 0, 0]],
        trace = []\<rparr>) = Inl (IndexOutOfRange 16 16)"
  by code_simp

section \<open>Config matching\<close>

lemma Contains_empty: "Contains s []"
  by (cases s) simp_all

lemma Contains_sublist: "Contains s substr \<longleftrightarrow> sublist substr s"
  by (induction s) (simp_all add: sublist_Cons_right)

lemma ToUpper_empty: "ToUpper [] = []"
  by (simp add: ToUpper_def)

lemma matchConfig_first:
  "i < length configs \<Longrightarrow> Contains (ToUpper name) (ToUpper (Match (configs ! i))) \<Longrightarrow>
   (\<forall>j<i. \<not> Contains (ToUpper name) (ToUpper (Match (configs ! j)))) \<Longrightarrow>
   matchConfig name configs = Some (configs ! i)"
proof (induction configs arbitrary: i)
  case Nil
  then show ?case by simp
next
  case (Cons c configs)
  show ?case
  proof (cases i)
    case 0
    with Cons.prems(2) show ?thesis by simp
  next
    case (Suc k)
    have not_c: "\<not> Contains (ToUpper name) (ToUpper (Match c))"
      using Cons.prems(3) Suc by force
    have "matchConfig name configs = Some (configs ! k)"
    proof (rule Cons.IH)
      show "k < length configs" using Cons.prems(1) Suc by simp
      show "Contains (ToUpper name) (ToUpper (Match (configs ! k)))"
        using Cons.prems(2) Suc by simp
      show "\<forall>j<k. \<not> Contains (ToUpper name) (ToUpper (Match (configs ! j)))"
        using Cons.prems(3) Suc by force
    qed
    with not_c Suc show ?thesis by simp
  qed
qed

lemma discoverDevices_devices:
  "d \<in> set (fst (discoverDevices configs matches w)) \<Longrightarrow>
   Name d \<noteq> [] \<and> Config d = matchConfig (Name d) configs"
proof (induction matches arbitrary: w)
  case Nil
  then show ?case by simp
next
  case (Cons bus matches)
  obtain name w1 where g: "getMonitorName bus w = (name, w1)"
    by (cases "getMonitorName bus w")
  show ?case
  proof (cases "name = []")
    case True
    with Cons.prems g have "d \<in> set (fst (discoverDevices configs matches w1))" by simp
    then show ?thesis by (rule Cons.IH)
  next
    case False
    obtain devices w2 where r: "discoverDevices configs matches w1 = (devices, w2)"
      by (cases "discoverDevices configs matches w1")
    from Cons.prems g False r
    have "d = \<lparr>Bus = bus, Name = name, Config = matchConfig name configs\<rparr> \<or> d \<in> set devices"
      by simp
    then show ?thesis
    proof
      assume "d = \<lparr>Bus = bus, Name = name, Config = matchConfig name configs\<rparr>"
      with False show ?thesis by simp
    next
      assume "d \<in> set devices"
      with r have "d \<in> set (fst (discoverDevices configs matches w1))" by simp
      then show ?thesis by (rule Cons.IH)
    qed
  qed
qed

text \<open>
  C10. An empty match substring matches every monitor name. For every name and every list
  of configs, when the first config whose match substring occurs (case-insensitively) in the
  name has the empty match string, that config is the one bound; so with a config of empty
  match at the head of the list, every device that discovery returns (each has a non-empty
  name) is bound to that config, whatever its name.
\<close>

theorem empty_match_binds_every_name:
  "(i < length configs \<and> Match (configs ! i) = []
      \<and> (\<forall>j<i. \<not> Contains (ToUpper name) (ToUpper (Match (configs ! j))))
    \<longrightarrow> matchConfig name configs = Some (configs ! i))
   \<and> (Match c = [] \<longrightarrow>
        (\<forall>d \<in> set (fst (discoverDevices (c # rest) matches w)).
           Name d \<noteq> [] \<and> Config d = Some c))"
proof (intro conjI impI ballI)
  assume h: "i < length configs \<and> Match (configs ! i) = []
      \<and> (\<forall>j<i. \<not> Contains (ToUpper name) (ToUpper (Match (configs ! j))))"
  then have "Contains (ToUpper name) (ToUpper (Match (configs ! i)))"
    by (simp add: ToUpper_empty Contains_empty)
  with h show "matchConfig name configs = Some (configs ! i)"
    by (simp add: matchConfig_first)
next
  fix d
  assume m: "Match c = []" and d: "d \<in> set (fst (discoverDevices (c # rest) matches w))"
  from d have "Name d \<noteq> [] \<and> Config d = matchConfig (Name d) (c # rest)"
    by (rule discoverDevices_devices)
  with m show "Name d \<noteq> []" and "Config d = Some c"
    by (simp_all add: ToUpper_empty Contains_empty)
qed

theorem empty_match_binds_every_name_witness:
  "(1 :: nat) < length [\<lparr>Model = ''Dell U2720Q'', Match = ''U2720Q'', Features = [], Presets = []\<rparr>,
                       \<lparr>Model = ''Any'', Match = [], Features = [], Presets = []\<rparr>]
   \<and> \<not> Contains (ToUpper ''DELL U4021QW'') (ToUpper ''U2720Q'')
   \<and> matchConfig ''DELL U4021QW''
        [\<lparr>Model = ''Dell U2720Q'', Match = ''U2720Q'', Features = [], Presets = []\<rparr>,
         \<lparr>Model = ''Any'', Match = [], Features = [], Presets = []\<rparr>]
      = Some \<lparr>Model = ''Any'', Match = [], Features = [], Presets = []\<rparr>
   \<and> (\<exists>d. d \<in> set (fst (discoverDevices
              [\<lparr>Model = ''Any'', Match = [], Features = [], Presets = []\<rparr>,
               \<lparr>Model = ''Dell U2720Q'', Match = ''U2720Q'', Features = [], Presets = []\<rparr>]
              [''/dev/i2c-7'']
              \<lparr>script = [Gives [], Gives [], Gives (bytes_of_string ''DELL'')], trace = []\<rparr>))
          \<and> Config d = Some \<lparr>Model = ''Any'', Match = [], Features = [], Presets = []\<rparr>)"
proof -
  let ?cA = "\<lparr>Model = ''Dell U2720Q'', Match = ''U2720Q'', Features = [], Presets = []\<rparr>"
  let ?cB = "\<lparr>Model = ''Any'', Match = [], Features = [], Presets = []\<rparr>"
  let ?w = "\<lparr>script = [Gives [], Gives [], Gives (bytes_of_string ''DELL'')], trace = []\<rparr>"
  note inst = empty_match_binds_every_name
    [of 1 "[?cA, ?cB]" "''DELL U4021QW''" ?cB "[?cA]" "[''/dev/i2c-7'']" ?w]
  have len: "(1 :: nat) < length [?cA, ?cB]" by simp
  have no: "\<not> Contains (ToUpper ''DELL U4021QW'') (ToUpper ''U2720Q'')" by code_simp
  have first: "\<forall>j<1. \<not> Contains (ToUpper ''DELL U4021QW'') (ToUpper (Match ([?cA, ?cB] ! j)))"
    using no by simp
  have m: "matchConfig ''DELL U4021QW'' [?cA, ?cB] = Some ?cB"
    using inst len first by simp
  have dev: "\<lparr>Bus = ''/dev/i2c-7'', Name = ''DELL Monitor'', Config = Some ?cB\<rparr>
               \<in> set (fst (discoverDevices [?cB, ?cA] [''/dev/i2c-7''] ?w))"
    by code_simp
  have "\<exists>d. d \<in> set (fst (discoverDevices [?cB, ?cA] [''/dev/i2c-7''] ?w)) \<and> Config d = Some ?cB"
    using dev inst by (intro exI [of _ "\<lparr>Bus = ''/dev/i2c-7'', Name = ''DELL Monitor'', Config = Some ?cB\<rparr>"]) simp
  with len no m show ?thesis by blast
qed


section \<open>The preset sequencer\<close>

lemma calls_append: "calls (xs @ ys) = calls xs @ calls ys"
  by (induction xs rule: calls.induct) simp_all

lemma trace_emit: "trace (emit e w) = trace w @ [e]"
  by (simp add: emit_def)

lemma trace_syscall: "trace (snd (syscall w)) = trace w"
  by (simp add: syscall_def split: list.split)

lemma syscall_trace: "syscall w = (r, w1) \<Longrightarrow> trace w1 = trace w"
  using trace_syscall [of w] by simp

lemma calls_bus_events: "list_all bus_event evs \<Longrightarrow> calls evs = []"
  by (induction evs rule: calls.induct) simp_all

lemma setVCP_write_trace:
  "\<exists>evs. trace (snd (setVCP_write bus data retry lastErr w)) = trace w @ evs
         \<and> list_all bus_event evs"
proof (induction bus data retry lastErr w rule: setVCP_write.induct)
  case (1 bus data retry lastErr w)
  show ?case
  proof (cases "retry < 3")
    case False
    then show ?thesis by (subst setVCP_write.simps) simp
  next
    case True
    obtain r w1 where s: "syscall (emit (Write bus data) w) = (r, w1)"
      by (cases "syscall (emit (Write bus data) w)")
    have t1: "trace w1 = trace w @ [Write bus data]"
      using syscall_trace [OF s] by (simp add: trace_emit)
    show ?thesis
    proof (cases r)
      case (Gives bs)
      with True s t1 show ?thesis
        by (subst setVCP_write.simps) simp
    next
      case (Fails e)
      from "1.IH" [OF True s [symmetric] Fails]
      obtain evs where
        ih: "trace (snd (setVCP_write bus data (retry + 1) (Some (Errno e)) (emit (Sleep 200) w1)))
               = trace (emit (Sleep 200) w1) @ evs" and ok: "list_all bus_event evs"
        by blast
      have "trace (snd (setVCP_write bus data retry lastErr w))
              = trace w @ (Write bus data # Sleep 200 # evs)"
        using True s Fails ih t1 by (subst setVCP_write.simps) (simp add: trace_emit)
      moreover have "list_all bus_event (Write bus data # Sleep 200 # evs)"
        using ok by simp
      ultimately show ?thesis by blast
    qed
  qed
qed

lemma setVCP_trace:
  "\<exists>evs. trace (snd (setVCP bus vcp val w)) = trace w @ evs \<and> list_all bus_event evs"
proof -
  obtain r1 w1 where s1: "syscall w = (r1, w1)" by (cases "syscall w")
  obtain r2 w2 where s2: "syscall w1 = (r2, w2)" by (cases "syscall w1")
  have t: "trace w1 = trace w" "trace w2 = trace w"
    using syscall_trace [OF s1] syscall_trace [OF s2] by simp_all
  show ?thesis
  proof (cases r1)
    case (Fails e)
    with s1 t show ?thesis by (simp add: setVCP_def)
  next
    case g1: (Gives bs)
    show ?thesis
    proof (cases r2)
      case (Fails e)
      with s1 s2 g1 t show ?thesis by (simp add: setVCP_def)
    next
      case (Gives cs)
      with s1 s2 g1 t setVCP_write_trace [of bus "setVCP_frame vcp val" 0 None w2]
      show ?thesis by (simp add: setVCP_def)
    qed
  qed
qed

lemma applyFeature_cases:
  "snd (applyFeature target f l w) = emit (Call_applyFeature f l) w
   \<or> (\<exists>vcp val. snd (applyFeature target f l w)
          = snd (setVCP (Bus target) vcp val (emit (Call_applyFeature f l) w)))"
  by (auto simp: applyFeature_def Let_def split: option.split)

lemma applyFeature_calls:
  "calls (trace (snd (applyFeature target f l w))) = calls (trace w) @ [(f, l)]"
proof -
  let ?w = "emit (Call_applyFeature f l) w"
  have base: "calls (trace ?w) = calls (trace w) @ [(f, l)]"
    by (simp add: trace_emit calls_append)
  from applyFeature_cases [of target f l w] show ?thesis
  proof
    assume "snd (applyFeature target f l w) = ?w"
    with base show ?thesis by simp
  next
    assume "\<exists>vcp val. snd (applyFeature target f l w) = snd (setVCP (Bus target) vcp val ?w)"
    then obtain vcp val where
      eq: "snd (applyFeature target f l w) = snd (setVCP (Bus target) vcp val ?w)"
      by blast
    obtain evs where "trace (snd (setVCP (Bus target) vcp val ?w)) = trace ?w @ evs"
      and "list_all bus_event evs"
      using setVCP_trace by blast
    with eq base show ?thesis by (simp add: calls_append calls_bus_events)
  qed
qed

lemma applyFeature_keeps:
  "set (trace w) \<subseteq> set (trace (snd (applyFeature target f l w)))"
proof -
  let ?w = "emit (Call_applyFeature f l) w"
  from applyFeature_cases [of target f l w] show ?thesis
  proof
    assume "snd (applyFeature target f l w) = ?w"
    then show ?thesis by (auto simp: trace_emit)
  next
    assume "\<exists>vcp val. snd (applyFeature target f l w) = snd (setVCP (Bus target) vcp val ?w)"
    then obtain vcp val where
      eq: "snd (applyFeature target f l w) = snd (setVCP (Bus target) vcp val ?w)"
      by blast
    obtain evs where "trace (snd (setVCP (Bus target) vcp val ?w)) = trace ?w @ evs"
      using setVCP_trace by blast
    with eq show ?thesis by (auto simp: trace_emit)
  qed
qed

lemma apply_order_step:
  assumes "map_of preset f = Some l" and "applyFeature target f l w = (err, w1)"
  shows "apply_order target preset (f # order) w
         = apply_order target preset order
             (emit (Sleep (if f = ''pbp_mode'' \<or> f = ''input_source'' then 2000 else 1000))
                (case err of None \<Rightarrow> w1 | Some e \<Rightarrow> emit (ErrorApplying f e) w1))"
  using assms by (simp add: Let_def)

lemma apply_order_calls:
  "calls (trace (apply_order target preset order w)) = calls (trace w) @ defined_in preset order"
proof (induction order arbitrary: w)
  case Nil
  show ?case by simp
next
  case (Cons f order)
  show ?case
  proof (cases "map_of preset f")
    case None
    with Cons.IH [of w] show ?thesis by simp
  next
    case (Some l)
    obtain err w1 where a: "applyFeature target f l w = (err, w1)"
      by (cases "applyFeature target f l w")
    have c1: "calls (trace w1) = calls (trace w) @ [(f, l)]"
      using applyFeature_calls [of target f l w] a by simp
    let ?w2 = "case err of None \<Rightarrow> w1 | Some e \<Rightarrow> emit (ErrorApplying f e) w1"
    have c2: "calls (trace ?w2) = calls (trace w1)"
      by (cases err) (simp_all add: trace_emit calls_append)
    let ?w3 = "emit (Sleep (if f = ''pbp_mode'' \<or> f = ''input_source'' then 2000 else 1000)) ?w2"
    have c3: "calls (trace ?w3) = calls (trace w) @ [(f, l)]"
      using c1 c2 by (simp add: trace_emit calls_append)
    have "apply_order target preset (f # order) w = apply_order target preset order ?w3"
      using Some a by (rule apply_order_step)
    then show ?thesis
      using Cons.IH [of ?w3] c3 Some by simp
  qed
qed

lemma applyPreset_off:
  assumes "map_of preset ''pbp_mode'' = Some ''off''"
  shows "calls (trace (applyPreset target preset w))
         = calls (trace w) @ defined_in preset [''pbp_mode'', ''input_source'', ''usb_selection'']"
  using assms by (simp add: applyPreset_def apply_order_calls del: apply_order.simps defined_in.simps)

lemma applyPreset_not_off:
  assumes "map_of preset ''pbp_mode'' \<noteq> Some ''off''"
  shows "calls (trace (applyPreset target preset w))
         = calls (trace w) @ (''pbp_mode'', ''off'')
             # defined_in preset [''input_source'', ''pbp_mode'', ''pbp_sub_input'', ''usb_selection'']"
proof -
  have ne: "(case map_of preset ''pbp_mode'' of None \<Rightarrow> [] | Some v \<Rightarrow> v) \<noteq> ''off''"
    using assms by (cases "map_of preset ''pbp_mode''") simp_all
  obtain err w1 where a: "applyFeature target ''pbp_mode'' ''off'' w = (err, w1)"
    by (cases "applyFeature target ''pbp_mode'' ''off'' w")
  have c1: "calls (trace w1) = calls (trace w) @ [(''pbp_mode'', ''off'')]"
    using applyFeature_calls [of target "''pbp_mode''" "''off''" w] a by simp
  have "applyPreset target preset w
        = apply_order target preset
            [''input_source'', ''pbp_mode'', ''pbp_sub_input'', ''usb_selection'']
            (emit (Sleep 2000) w1)"
    using ne a by (simp add: applyPreset_def Let_def del: apply_order.simps)
  then show ?thesis
    using c1 by (simp add: apply_order_calls trace_emit calls_append del: apply_order.simps defined_in.simps)
qed


lemma defined_in_comprehension:
  "defined_in preset order = [(f, the (map_of preset f)). f \<leftarrow> order, map_of preset f \<noteq> None]"
  by (induction order) (auto split: option.split)

lemma apply_order_append:
  "apply_order target preset (pre @ post) w
   = apply_order target preset post (apply_order target preset pre w)"
proof (induction pre arbitrary: w)
  case Nil
  show ?case by simp
next
  case (Cons f pre)
  show ?case
  proof (cases "map_of preset f")
    case None
    with Cons.IH show ?thesis by simp
  next
    case (Some l)
    obtain err w1 where a: "applyFeature target f l w = (err, w1)"
      by (cases "applyFeature target f l w")
    show ?thesis
      unfolding append_Cons apply_order_step [OF Some a] by (rule Cons.IH)
  qed
qed

lemma apply_order_keeps:
  "set (trace w) \<subseteq> set (trace (apply_order target preset order w))"
proof (induction order arbitrary: w)
  case Nil
  show ?case by simp
next
  case (Cons f order)
  show ?case
  proof (cases "map_of preset f")
    case None
    with Cons.IH [of w] show ?thesis by simp
  next
    case (Some l)
    obtain err w1 where a: "applyFeature target f l w = (err, w1)"
      by (cases "applyFeature target f l w")
    let ?w2 = "case err of None \<Rightarrow> w1 | Some e \<Rightarrow> emit (ErrorApplying f e) w1"
    let ?w3 = "emit (Sleep (if f = ''pbp_mode'' \<or> f = ''input_source'' then 2000 else 1000)) ?w2"
    have "set (trace w) \<subseteq> set (trace w1)"
      using applyFeature_keeps [of w target f l] a by simp
    also have "set (trace w1) \<subseteq> set (trace ?w2)"
      by (cases err) (auto simp: trace_emit)
    also have "set (trace ?w2) \<subseteq> set (trace ?w3)"
      by (auto simp: trace_emit)
    also have "set (trace ?w3) \<subseteq> set (trace (apply_order target preset order ?w3))"
      by (rule Cons.IH)
    finally show ?thesis
      unfolding apply_order_step [OF Some a] .
  qed
qed

lemma script_emit: "script (emit e w) = script w"
  by (simp add: emit_def)

lemma setVCP_working_bus:
  assumes "script w = []"
  shows "setVCP bus vcp val w = (None, emit (Write bus (setVCP_frame vcp val)) w)"
proof -
  have s: "syscall v = (Gives [], v)" if "script v = []" for v
    using that by (simp add: syscall_def)
  have "setVCP_write bus (setVCP_frame vcp val) 0 None w
        = (None, emit (Write bus (setVCP_frame vcp val)) w)"
    using assms by (subst setVCP_write.simps) (simp add: s script_emit)
  then show ?thesis
    using assms by (simp add: setVCP_def s)
qed

lemma applyFeature_resolve:
  "applyFeature target f l w =
     (case resolve target f l of
        Inl e \<Rightarrow> (Some e, emit (Call_applyFeature f l) w)
      | Inr (vcp, val) \<Rightarrow> setVCP (Bus target) vcp val (emit (Call_applyFeature f l) w))"
  by (simp add: applyFeature_def resolve_def Let_def split: option.split)

lemma apply_order_working_bus:
  "script w = [] \<Longrightarrow>
   script (apply_order target preset order w) = []
   \<and> trace (apply_order target preset order w)
     = trace w @ concat (map (step_events target) (defined_in preset order))"
proof (induction order arbitrary: w)
  case Nil
  then show ?case by simp
next
  case (Cons f order)
  show ?case
  proof (cases "map_of preset f")
    case None
    with Cons.IH [OF Cons.prems] show ?thesis by simp
  next
    case (Some l)
    let ?c = "emit (Call_applyFeature f l) w"
    let ?ms = "if f = ''pbp_mode'' \<or> f = ''input_source'' then 2000 else 1000 :: nat"
    show ?thesis
    proof (cases "resolve target f l")
      case (Inl e)
      then have a: "applyFeature target f l w = (Some e, ?c)"
        by (simp add: applyFeature_resolve)
      let ?w3 = "emit (Sleep ?ms) (emit (ErrorApplying f e) ?c)"
      have run: "apply_order target preset (f # order) w = apply_order target preset order ?w3"
        using apply_order_step [OF Some a] by simp
      have sc: "script ?w3 = []" using Cons.prems by (simp add: script_emit)
      have tr: "trace ?w3 = trace w @ step_events target (f, l)"
        using Inl by (simp add: step_events_def trace_emit)
      from Cons.IH [OF sc] run tr Some show ?thesis by simp
    next
      case (Inr cv)
      obtain vcp val where cv: "cv = (vcp, val)" by (cases cv)
      have "script ?c = []" using Cons.prems by (simp add: script_emit)
      then have a: "applyFeature target f l w
                    = (None, emit (Write (Bus target) (setVCP_frame vcp val)) ?c)"
        using Inr cv by (simp add: applyFeature_resolve setVCP_working_bus)
      let ?w3 = "emit (Sleep ?ms) (emit (Write (Bus target) (setVCP_frame vcp val)) ?c)"
      have run: "apply_order target preset (f # order) w = apply_order target preset order ?w3"
        using apply_order_step [OF Some a] by simp
      have sc: "script ?w3 = []" using Cons.prems by (simp add: script_emit)
      have tr: "trace ?w3 = trace w @ step_events target (f, l)"
        using Inr cv by (simp add: step_events_def trace_emit)
      from Cons.IH [OF sc] run tr Some show ?thesis by simp
    qed
  qed
qed

lemma reset_working_bus:
  assumes "script w = []"
  shows "script (emit (Sleep 2000) (snd (applyFeature target ''pbp_mode'' ''off'' w))) = []
       \<and> trace (emit (Sleep 2000) (snd (applyFeature target ''pbp_mode'' ''off'' w)))
         = trace w @ reset_events target"
proof (cases "resolve target ''pbp_mode'' ''off''")
  case (Inl e)
  then show ?thesis
    using assms by (simp add: applyFeature_resolve reset_events_def trace_emit script_emit)
next
  case (Inr cv)
  obtain vcp val where cv: "cv = (vcp, val)" by (cases cv)
  have "script (emit (Call_applyFeature ''pbp_mode'' ''off'') w) = []"
    using assms by (simp add: script_emit)
  then show ?thesis
    using Inr cv
    by (simp add: applyFeature_resolve setVCP_working_bus reset_events_def trace_emit script_emit)
qed

lemma applyPreset_off_trace:
  assumes "map_of preset ''pbp_mode'' = Some ''off''" and "script w = []"
  shows "trace (applyPreset target preset w)
         = trace w @ concat (map (step_events target)
             (defined_in preset [''pbp_mode'', ''input_source'', ''usb_selection'']))"
proof -
  have "applyPreset target preset w
        = apply_order target preset [''pbp_mode'', ''input_source'', ''usb_selection''] w"
    using assms(1) by (simp add: applyPreset_def del: apply_order.simps)
  then show ?thesis
    using apply_order_working_bus [OF assms(2)] by (simp del: apply_order.simps defined_in.simps)
qed

lemma applyPreset_not_off_trace:
  assumes "map_of preset ''pbp_mode'' \<noteq> Some ''off''" and "script w = []"
  shows "trace (applyPreset target preset w)
         = trace w @ reset_events target @ concat (map (step_events target)
             (defined_in preset [''input_source'', ''pbp_mode'', ''pbp_sub_input'', ''usb_selection'']))"
proof -
  have ne: "(case map_of preset ''pbp_mode'' of None \<Rightarrow> [] | Some v \<Rightarrow> v) \<noteq> ''off''"
    using assms(1) by (cases "map_of preset ''pbp_mode''") simp_all
  let ?w1 = "emit (Sleep 2000) (snd (applyFeature target ''pbp_mode'' ''off'' w))"
  have "applyPreset target preset w
        = apply_order target preset
            [''input_source'', ''pbp_mode'', ''pbp_sub_input'', ''usb_selection''] ?w1"
    using ne by (simp add: applyPreset_def Let_def split_beta del: apply_order.simps)
  moreover have "script ?w1 = []" and "trace ?w1 = trace w @ reset_events target"
    using reset_working_bus [OF assms(2)] by simp_all
  ultimately show ?thesis
    using apply_order_working_bus [of ?w1]
    by (simp del: apply_order.simps defined_in.simps)
qed


text \<open>
  C1. Order of a preset's steps. When the preset's \<open>pbp_mode\<close> label is "off", the calls
  of \<open>applyFeature\<close> that applying the preset adds to the trace are exactly those for the
  features of [pbp_mode, input_source, usb_selection] that the preset defines, in that order,
  each with the preset's label. For any other preset (another label, or no \<open>pbp_mode\<close>) the
  first call is the reset, pbp_mode with label "off", whatever the preset says, followed by
  the calls for the features of [input_source, pbp_mode, pbp_sub_input, usb_selection] that
  the preset defines, in that order. This holds for every device, config and script of bus
  outcomes. On a bus whose calls all succeed the whole trace is known: each step is its call,
  then one write of the SET frame with the code and value that the config gives for the
  feature and the label, or the printed error when the config gives none, then the settle
  delay; the reset step writes the pbp_mode "off" frame when the config defines it, and
  writes and prints nothing when it does not.
\<close>

theorem applyPreset_trace:
  "(map_of preset ''pbp_mode'' = Some ''off'' \<longrightarrow>
      calls (trace (applyPreset target preset w))
      = calls (trace w)
        @ [(f, the (map_of preset f)).
             f \<leftarrow> [''pbp_mode'', ''input_source'', ''usb_selection''], map_of preset f \<noteq> None]
      \<and> (script w = [] \<longrightarrow>
           trace (applyPreset target preset w)
           = trace w
             @ concat (map (step_events target)
                 [(f, the (map_of preset f)).
                    f \<leftarrow> [''pbp_mode'', ''input_source'', ''usb_selection''],
                    map_of preset f \<noteq> None])))
   \<and> (map_of preset ''pbp_mode'' \<noteq> Some ''off'' \<longrightarrow>
      calls (trace (applyPreset target preset w))
      = calls (trace w)
        @ (''pbp_mode'', ''off'')
        # [(f, the (map_of preset f)).
             f \<leftarrow> [''input_source'', ''pbp_mode'', ''pbp_sub_input'', ''usb_selection''],
             map_of preset f \<noteq> None]
      \<and> (script w = [] \<longrightarrow>
           trace (applyPreset target preset w)
           = trace w
             @ reset_events target
             @ concat (map (step_events target)
                 [(f, the (map_of preset f)).
                    f \<leftarrow> [''input_source'', ''pbp_mode'', ''pbp_sub_input'', ''usb_selection''],
                    map_of preset f \<noteq> None])))"
  using applyPreset_off [of preset target w, unfolded defined_in_comprehension]
    applyPreset_not_off [of preset target w, unfolded defined_in_comprehension]
    applyPreset_off_trace [of preset w target, unfolded defined_in_comprehension]
    applyPreset_not_off_trace [of preset w target, unfolded defined_in_comprehension]
  by blast

text \<open>
  The reset write depends on the config. With the config of the README, which defines
  \<open>input_source\<close> only, and its preset "work", the reset step writes nothing and prints
  nothing: the only frame written is the one for \<open>input_source\<close>.
\<close>

theorem applyPreset_reset_not_written:
  "map_of [(''input_source'', ''dp'')] ''pbp_mode'' \<noteq> Some ''off''
   \<and> trace (applyPreset
        \<lparr>Bus = ''/dev/i2c-7'', Name = ''DELL U4021QW'',
          Config = Some \<lparr>Model = ''Dell U4021QW'', Match = ''U4021QW'',
            Features = [(''input_source'',
              \<lparr>VCP = ''0x60'', Values = [(''dp'', ''0x0f''), (''hdmi1'', ''0x11'')]\<rparr>)],
            Presets = [(''work'', [(''input_source'', ''dp'')])]\<rparr>\<rparr>
        [(''input_source'', ''dp'')]
        \<lparr>script = [], trace = []\<rparr>)
     = [Call_applyFeature ''pbp_mode'' ''off'', Sleep 2000,
        Call_applyFeature ''input_source'' ''dp'',
        Write ''/dev/i2c-7'' [0x51, 0x84, 0x03, 0x60, 0x00, 0x0F, 0xD7], Sleep 2000]"
  by code_simp

theorem applyPreset_trace_witness:
  "map_of [(''pbp_mode'', ''off''), (''input_source'', ''hdmi1'')] ''pbp_mode'' = Some ''off''
   \<and> script \<lparr>script = [], trace = []\<rparr> = []
   \<and> trace (applyPreset
        \<lparr>Bus = ''/dev/i2c-7'', Name = ''DELL U4021QW'',
          Config = Some \<lparr>Model = ''Dell U4021QW'', Match = ''U4021QW'',
            Features =
              [(''input_source'', \<lparr>VCP = ''0x60'', Values = [(''dp'', ''0x0f''), (''hdmi1'', ''0x11'')]\<rparr>),
               (''pbp_mode'', \<lparr>VCP = ''0xE9'', Values = [(''off'', ''0x00''), (''on'', ''0x24'')]\<rparr>),
               (''pbp_sub_input'', \<lparr>VCP = ''0xE8'', Values = [(''hdmi1'', ''0x11'')]\<rparr>)],
            Presets = []\<rparr>\<rparr>
        [(''pbp_mode'', ''off''), (''input_source'', ''hdmi1'')]
        \<lparr>script = [], trace = []\<rparr>)
     = [Call_applyFeature ''pbp_mode'' ''off'',
        Write ''/dev/i2c-7'' [0x51, 0x84, 0x03, 0xE9, 0x00, 0x00, 0x51], Sleep 2000,
        Call_applyFeature ''input_source'' ''hdmi1'',
        Write ''/dev/i2c-7'' [0x51, 0x84, 0x03, 0x60, 0x00, 0x11, 0xC9], Sleep 2000]
   \<and> map_of [(''pbp_mode'', ''on''), (''input_source'', ''dp''), (''pbp_sub_input'', ''hdmi1'')]
         ''pbp_mode'' \<noteq> Some ''off''
   \<and> trace (applyPreset
        \<lparr>Bus = ''/dev/i2c-7'', Name = ''DELL U4021QW'',
          Config = Some \<lparr>Model = ''Dell U4021QW'', Match = ''U4021QW'',
            Features =
              [(''input_source'', \<lparr>VCP = ''0x60'', Values = [(''dp'', ''0x0f''), (''hdmi1'', ''0x11'')]\<rparr>),
               (''pbp_mode'', \<lparr>VCP = ''0xE9'', Values = [(''off'', ''0x00''), (''on'', ''0x24'')]\<rparr>),
               (''pbp_sub_input'', \<lparr>VCP = ''0xE8'', Values = [(''hdmi1'', ''0x11'')]\<rparr>)],
            Presets = []\<rparr>\<rparr>
        [(''pbp_mode'', ''on''), (''input_source'', ''dp''), (''pbp_sub_input'', ''hdmi1'')]
        \<lparr>script = [], trace = []\<rparr>)
     = [Call_applyFeature ''pbp_mode'' ''off'',
        Write ''/dev/i2c-7'' [0x51, 0x84, 0x03, 0xE9, 0x00, 0x00, 0x51], Sleep 2000,
        Call_applyFeature ''input_source'' ''dp'',
        Write ''/dev/i2c-7'' [0x51, 0x84, 0x03, 0x60, 0x00, 0x0F, 0xD7], Sleep 2000,
        Call_applyFeature ''pbp_mode'' ''on'',
        Write ''/dev/i2c-7'' [0x51, 0x84, 0x03, 0xE9, 0x00, 0x24, 0x75], Sleep 2000,
        Call_applyFeature ''pbp_sub_input'' ''hdmi1'',
        Write ''/dev/i2c-7'' [0x51, 0x84, 0x03, 0xE8, 0x00, 0x11, 0x41], Sleep 1000]"
proof -
  let ?c = "\<lparr>Model = ''Dell U4021QW'', Match = ''U4021QW'',
            Features =
              [(''input_source'', \<lparr>VCP = ''0x60'', Values = [(''dp'', ''0x0f''), (''hdmi1'', ''0x11'')]\<rparr>),
               (''pbp_mode'', \<lparr>VCP = ''0xE9'', Values = [(''off'', ''0x00''), (''on'', ''0x24'')]\<rparr>),
               (''pbp_sub_input'', \<lparr>VCP = ''0xE8'', Values = [(''hdmi1'', ''0x11'')]\<rparr>)],
            Presets = []\<rparr>"
  let ?d = "\<lparr>Bus = ''/dev/i2c-7'', Name = ''DELL U4021QW'', Config = Some ?c\<rparr>"
  let ?w = "\<lparr>script = [], trace = []\<rparr>"
  let ?p1 = "[(''pbp_mode'', ''off''), (''input_source'', ''hdmi1'')]"
  let ?p2 = "[(''pbp_mode'', ''on''), (''input_source'', ''dp''), (''pbp_sub_input'', ''hdmi1'')]"
  have h1: "map_of ?p1 ''pbp_mode'' = Some ''off''" by simp
  have h2: "map_of ?p2 ''pbp_mode'' \<noteq> Some ''off''" by simp
  have sc: "script ?w = []" by simp
  have "trace (applyPreset ?d ?p1 ?w)
        = trace ?w
          @ concat (map (step_events ?d)
              [(f, the (map_of ?p1 f)).
                 f \<leftarrow> [''pbp_mode'', ''input_source'', ''usb_selection''], map_of ?p1 f \<noteq> None])"
    using applyPreset_trace [of ?p1 ?d ?w] h1 sc by blast
  also have "\<dots> = [Call_applyFeature ''pbp_mode'' ''off'',
        Write ''/dev/i2c-7'' [0x51, 0x84, 0x03, 0xE9, 0x00, 0x00, 0x51], Sleep 2000,
        Call_applyFeature ''input_source'' ''hdmi1'',
        Write ''/dev/i2c-7'' [0x51, 0x84, 0x03, 0x60, 0x00, 0x11, 0xC9], Sleep 2000]"
    by code_simp
  finally have t1: "trace (applyPreset ?d ?p1 ?w) = [Call_applyFeature ''pbp_mode'' ''off'',
        Write ''/dev/i2c-7'' [0x51, 0x84, 0x03, 0xE9, 0x00, 0x00, 0x51], Sleep 2000,
        Call_applyFeature ''input_source'' ''hdmi1'',
        Write ''/dev/i2c-7'' [0x51, 0x84, 0x03, 0x60, 0x00, 0x11, 0xC9], Sleep 2000]" .
  have "trace (applyPreset ?d ?p2 ?w)
        = trace ?w
          @ reset_events ?d
          @ concat (map (step_events ?d)
              [(f, the (map_of ?p2 f)).
                 f \<leftarrow> [''input_source'', ''pbp_mode'', ''pbp_sub_input'', ''usb_selection''],
                 map_of ?p2 f \<noteq> None])"
    using applyPreset_trace [of ?p2 ?d ?w] h2 sc by blast
  also have "\<dots> = [Call_applyFeature ''pbp_mode'' ''off'',
        Write ''/dev/i2c-7'' [0x51, 0x84, 0x03, 0xE9, 0x00, 0x00, 0x51], Sleep 2000,
        Call_applyFeature ''input_source'' ''dp'',
        Write ''/dev/i2c-7'' [0x51, 0x84, 0x03, 0x60, 0x00, 0x0F, 0xD7], Sleep 2000,
        Call_applyFeature ''pbp_mode'' ''on'',
        Write ''/dev/i2c-7'' [0x51, 0x84, 0x03, 0xE9, 0x00, 0x24, 0x75], Sleep 2000,
        Call_applyFeature ''pbp_sub_input'' ''hdmi1'',
        Write ''/dev/i2c-7'' [0x51, 0x84, 0x03, 0xE8, 0x00, 0x11, 0x41], Sleep 1000]"
    by code_simp
  finally have t2: "trace (applyPreset ?d ?p2 ?w) = [Call_applyFeature ''pbp_mode'' ''off'',
        Write ''/dev/i2c-7'' [0x51, 0x84, 0x03, 0xE9, 0x00, 0x00, 0x51], Sleep 2000,
        Call_applyFeature ''input_source'' ''dp'',
        Write ''/dev/i2c-7'' [0x51, 0x84, 0x03, 0x60, 0x00, 0x0F, 0xD7], Sleep 2000,
        Call_applyFeature ''pbp_mode'' ''on'',
        Write ''/dev/i2c-7'' [0x51, 0x84, 0x03, 0xE9, 0x00, 0x24, 0x75], Sleep 2000,
        Call_applyFeature ''pbp_sub_input'' ''hdmi1'',
        Write ''/dev/i2c-7'' [0x51, 0x84, 0x03, 0xE8, 0x00, 0x11, 0x41], Sleep 1000]" .
  from h1 sc t1 h2 t2 show ?thesis by (intro conjI)
qed

text \<open>
  C7. Best effort. Take any order, any position in it (the order is \<open>pre @ f # post\<close>) and
  a preset that defines the feature \<open>f\<close> at that position. When applying \<open>f\<close> returns an
  error, the loop prints it, waits the settle delay and goes on with the rest of the order:
  the error is in the trace of the run, and after the failed step \<open>applyFeature\<close> is called
  for every feature of \<open>post\<close> that the preset defines, in order.
\<close>

theorem failed_step_does_not_abort:
  assumes "map_of preset f = Some l"
    and "applyFeature target f l (apply_order target preset pre w) = (Some e, w')"
  shows "apply_order target preset (pre @ f # post) w
         = apply_order target preset post
             (emit (Sleep (if f = ''pbp_mode'' \<or> f = ''input_source'' then 2000 else 1000))
                (emit (ErrorApplying f e) w'))
       \<and> ErrorApplying f e \<in> set (trace (apply_order target preset (pre @ f # post) w))
       \<and> calls (trace (apply_order target preset (pre @ f # post) w))
         = calls (trace w') @ [(g, the (map_of preset g)). g \<leftarrow> post, map_of preset g \<noteq> None]"
proof -
  let ?w0 = "apply_order target preset pre w"
  let ?w3 = "emit (Sleep (if f = ''pbp_mode'' \<or> f = ''input_source'' then 2000 else 1000))
               (emit (ErrorApplying f e) w')"
  have "apply_order target preset (pre @ f # post) w = apply_order target preset (f # post) ?w0"
    by (rule apply_order_append)
  also have "\<dots> = apply_order target preset post ?w3"
    using apply_order_step [OF assms(1) assms(2)] by simp
  finally have run: "apply_order target preset (pre @ f # post) w
                     = apply_order target preset post ?w3" .
  have "ErrorApplying f e \<in> set (trace ?w3)"
    by (simp add: trace_emit)
  then have reported: "ErrorApplying f e \<in> set (trace (apply_order target preset post ?w3))"
    using apply_order_keeps [of ?w3 target preset post] by blast
  have "calls (trace (apply_order target preset post ?w3))
        = calls (trace ?w3) @ defined_in preset post"
    by (rule apply_order_calls)
  also have "calls (trace ?w3) = calls (trace w')"
    by (simp add: trace_emit calls_append)
  finally have attempted: "calls (trace (apply_order target preset post ?w3))
        = calls (trace w') @ [(g, the (map_of preset g)). g \<leftarrow> post, map_of preset g \<noteq> None]"
    by (simp only: defined_in_comprehension)
  from run reported attempted show ?thesis by (simp only: simp_thms)
qed


theorem failed_step_does_not_abort_witness:
  "map_of [(''input_source'', ''dp''), (''usb_selection'', ''pc1'')] ''input_source'' = Some ''dp''
   \<and> fst (applyFeature
        \<lparr>Bus = ''/dev/i2c-7'', Name = ''DELL U4021QW'',
          Config = Some \<lparr>Model = ''Dell U4021QW'', Match = ''U4021QW'',
            Features = [(''input_source'', \<lparr>VCP = ''0x60'', Values = [(''dp'', ''0x0f'')]\<rparr>)],
            Presets = []\<rparr>\<rparr>
        ''input_source'' ''dp''
        \<lparr>script = [Gives [], Gives [], Fails 5, Fails 5, Fails 5], trace = []\<rparr>)
      = Some (Errno 5)
   \<and> ErrorApplying ''input_source'' (Errno 5)
       \<in> set (trace (apply_order
        \<lparr>Bus = ''/dev/i2c-7'', Name = ''DELL U4021QW'',
          Config = Some \<lparr>Model = ''Dell U4021QW'', Match = ''U4021QW'',
            Features = [(''input_source'', \<lparr>VCP = ''0x60'', Values = [(''dp'', ''0x0f'')]\<rparr>)],
            Presets = []\<rparr>\<rparr>
        [(''input_source'', ''dp''), (''usb_selection'', ''pc1'')]
        [''input_source'', ''usb_selection'']
        \<lparr>script = [Gives [], Gives [], Fails 5, Fails 5, Fails 5], trace = []\<rparr>))
   \<and> calls (trace (apply_order
        \<lparr>Bus = ''/dev/i2c-7'', Name = ''DELL U4021QW'',
          Config = Some \<lparr>Model = ''Dell U4021QW'', Match = ''U4021QW'',
            Features = [(''input_source'', \<lparr>VCP = ''0x60'', Values = [(''dp'', ''0x0f'')]\<rparr>)],
            Presets = []\<rparr>\<rparr>
        [(''input_source'', ''dp''), (''usb_selection'', ''pc1'')]
        [''input_source'', ''usb_selection'']
        \<lparr>script = [Gives [], Gives [], Fails 5, Fails 5, Fails 5], trace = []\<rparr>))
     = [(''input_source'', ''dp''), (''usb_selection'', ''pc1'')]"
proof -
  let ?d = "\<lparr>Bus = ''/dev/i2c-7'', Name = ''DELL U4021QW'',
          Config = Some \<lparr>Model = ''Dell U4021QW'', Match = ''U4021QW'',
            Features = [(''input_source'', \<lparr>VCP = ''0x60'', Values = [(''dp'', ''0x0f'')]\<rparr>)],
            Presets = []\<rparr>\<rparr>"
  let ?p = "[(''input_source'', ''dp''), (''usb_selection'', ''pc1'')]"
  let ?w = "\<lparr>script = [Gives [], Gives [], Fails 5, Fails 5, Fails 5], trace = []\<rparr>"
  let ?fr = "[0x51, 0x84, 0x03, 0x60, 0x00, 0x0F, 0xD7] :: u8 list"
  let ?w' = "\<lparr>script = [],
              trace = [Call_applyFeature ''input_source'' ''dp'',
                       Write ''/dev/i2c-7'' ?fr, Sleep 200,
                       Write ''/dev/i2c-7'' ?fr, Sleep 200,
                       Write ''/dev/i2c-7'' ?fr, Sleep 200]\<rparr>"
  have h1: "map_of ?p ''input_source'' = Some ''dp''" by simp
  have run: "applyFeature ?d ''input_source'' ''dp'' ?w = (Some (Errno 5), ?w')"
    by code_simp
  then have h2: "applyFeature ?d ''input_source'' ''dp'' (apply_order ?d ?p [] ?w)
                 = (Some (Errno 5), ?w')"
    by (simp only: apply_order.simps(1))
  note inst = failed_step_does_not_abort [OF h1 h2, of "[''usb_selection'']", unfolded append_Nil]
  have failed: "fst (applyFeature ?d ''input_source'' ''dp'' ?w) = Some (Errno 5)"
    using run by simp
  have reported: "ErrorApplying ''input_source'' (Errno 5)
      \<in> set (trace (apply_order ?d ?p [''input_source'', ''usb_selection''] ?w))"
    using inst by blast
  have "calls (trace (apply_order ?d ?p [''input_source'', ''usb_selection''] ?w))
        = calls (trace ?w') @ [(g, the (map_of ?p g)). g \<leftarrow> [''usb_selection''], map_of ?p g \<noteq> None]"
    using inst by blast
  also have "\<dots> = [(''input_source'', ''dp''), (''usb_selection'', ''pc1'')]"
    by simp
  finally have attempted: "calls (trace (apply_order ?d ?p [''input_source'', ''usb_selection''] ?w))
        = [(''input_source'', ''dp''), (''usb_selection'', ''pc1'')]" .
  from h1 failed reported attempted show ?thesis by (intro conjI)
qed


section \<open>Feature resolution\<close>

lemma sublist_join: "x \<in> set xs \<Longrightarrow> sublist x (join sep xs)"
proof (induction sep xs rule: join.induct)
  case (1 sep)
  then show ?case by simp
next
  case (2 sep y)
  then show ?case by simp
next
  case (3 sep y z zs)
  show ?case
  proof (cases "x = y")
    case True
    then show ?thesis by (simp add: sublist_append_rightI)
  next
    case False
    with "3.prems" have "x \<in> set (z # zs)" by simp
    then have "sublist x (join sep (z # zs))" by (rule "3.IH")
    moreover have "sublist (join sep (z # zs)) ((y @ sep) @ join sep (z # zs))"
      by (rule sublist_append_leftI)
    ultimately have "sublist x ((y @ sep) @ join sep (z # zs))"
      by (rule sublist_order.order.trans)
    then show ?thesis by simp
  qed
qed

lemma label_in_fmt_map:
  assumes "(k, v) \<in> set m"
  shows "sublist k (fmt_map m)"
proof -
  let ?entries = "map (\<lambda>(k, v). k @ '':'' @ v) (sort_key fst m)"
  have "k @ '':'' @ v \<in> set ?entries"
    using assms by force
  then have e: "sublist (k @ '':'' @ v) (join '' '' ?entries)"
    by (rule sublist_join)
  have "sublist k (k @ '':'' @ v)"
    by (rule sublist_append_rightI)
  from this e have "sublist k (join '' '' ?entries)"
    by (rule sublist_order.order.trans)
  moreover have "sublist (join '' '' ?entries) (''map['' @ join '' '' ?entries @ '']'')"
    by (rule sublist_appendI)
  ultimately have "sublist k (''map['' @ join '' '' ?entries @ '']'')"
    by (rule sublist_order.order.trans)
  then show ?thesis by (simp only: fmt_map_def)
qed


lemma setVCP_frame_example2:
  "setVCP_frame 0x60 0x11 = [0x51, 0x84, 0x03, 0x60, 0x00, 0x11, 0xC9]"
  by (simp add: setVCP_frame_def setVCP_data_def getChecksum_def Let_def)

text \<open>
  What \<open>applyFeature\<close> does for a device with a config. A feature name that is not among
  the config's features gives the error "feature <name> not defined" and nothing is written.
  Otherwise the requested value label is lower-cased and looked up as a key of the feature's
  values: when that key is there, the feature's code and the key's value are written with
  \<open>setVCP\<close>, and any other requested label with the same lower-cased form writes the same
  code and value; when it is not, the error is "invalid value <label> for <name>. Options:
  <values>" and every label of the feature occurs in that message.
\<close>

lemma applyFeature_resolution:
  assumes "Config target = Some config"
  shows
   "(map_of (Features config) featureName = None \<longrightarrow>
       applyFeature target featureName valueLabel w
       = (Some (Errorf (''feature '' @ featureName @ '' not defined'')),
          emit (Call_applyFeature featureName valueLabel) w))
    \<and> (\<forall>feat. map_of (Features config) featureName = Some feat \<longrightarrow>
         (\<forall>valStr label2.
            map_of (Values feat) (ToLower valueLabel) = Some valStr
            \<and> ToLower label2 = ToLower valueLabel \<longrightarrow>
              applyFeature target featureName valueLabel w
              = setVCP (Bus target) (parseHex (VCP feat)) (parseHex16 valStr)
                  (emit (Call_applyFeature featureName valueLabel) w)
            \<and> applyFeature target featureName label2 w
              = setVCP (Bus target) (parseHex (VCP feat)) (parseHex16 valStr)
                  (emit (Call_applyFeature featureName label2) w))
         \<and> (map_of (Values feat) (ToLower valueLabel) = None \<longrightarrow>
              applyFeature target featureName valueLabel w
              = (Some (Errorf (''invalid value '' @ valueLabel @ '' for '' @ featureName
                               @ ''. Options: '' @ fmt_map (Values feat))),
                 emit (Call_applyFeature featureName valueLabel) w)
            \<and> (\<forall>label \<in> fst ` set (Values feat).
                  sublist label (''invalid value '' @ valueLabel @ '' for '' @ featureName
                                 @ ''. Options: '' @ fmt_map (Values feat)))))"
proof (intro conjI impI allI ballI)
  assume "map_of (Features config) featureName = None"
  with assms show "applyFeature target featureName valueLabel w
       = (Some (Errorf (''feature '' @ featureName @ '' not defined'')),
          emit (Call_applyFeature featureName valueLabel) w)"
    by (simp add: applyFeature_def Let_def)
next
  fix feat valStr label2
  assume f: "map_of (Features config) featureName = Some feat"
    and v: "map_of (Values feat) (ToLower valueLabel) = Some valStr
            \<and> ToLower label2 = ToLower valueLabel"
  from assms f v show "applyFeature target featureName valueLabel w
              = setVCP (Bus target) (parseHex (VCP feat)) (parseHex16 valStr)
                  (emit (Call_applyFeature featureName valueLabel) w)"
    by (simp add: applyFeature_def Let_def)
  from assms f v show "applyFeature target featureName label2 w
              = setVCP (Bus target) (parseHex (VCP feat)) (parseHex16 valStr)
                  (emit (Call_applyFeature featureName label2) w)"
    by (simp add: applyFeature_def Let_def)
next
  fix feat
  assume f: "map_of (Features config) featureName = Some feat"
    and v: "map_of (Values feat) (ToLower valueLabel) = None"
  from assms f v show "applyFeature target featureName valueLabel w
              = (Some (Errorf (''invalid value '' @ valueLabel @ '' for '' @ featureName
                               @ ''. Options: '' @ fmt_map (Values feat))),
                 emit (Call_applyFeature featureName valueLabel) w)"
    by (simp add: applyFeature_def Let_def)
next
  fix feat label
  assume "label \<in> fst ` set (Values feat)"
  then obtain v where "(label, v) \<in> set (Values feat)" by auto
  then have "sublist label (fmt_map (Values feat))" by (rule label_in_fmt_map)
  moreover have "sublist (fmt_map (Values feat))
     ((''invalid value '' @ valueLabel @ '' for '' @ featureName @ ''. Options: '')
       @ fmt_map (Values feat))"
    by (rule sublist_append_leftI)
  ultimately have "sublist label
     ((''invalid value '' @ valueLabel @ '' for '' @ featureName @ ''. Options: '')
       @ fmt_map (Values feat))"
    by (rule sublist_order.order.trans)
  then show "sublist label (''invalid value '' @ valueLabel @ '' for '' @ featureName
                                 @ ''. Options: '' @ fmt_map (Values feat))"
    by (simp only: append_assoc)
qed

text \<open>
  C6. The claim has the value label looked up case-insensitively among the feature's labels.
  \<open>applyFeature\<close> lower-cases the requested label and leaves the labels of the config as
  they are: for a feature whose labels are "DP" and "HDMI1" the requested label "HDMI1",
  which is one of its labels, is rejected, with an error that lists HDMI1 among the options.
\<close>

theorem applyFeature_upper_case_label:
  "map_of [(''DP'', ''0x0f''), (''HDMI1'', ''0x11'')] ''HDMI1'' = Some ''0x11''
   \<and> fst (applyFeature
        \<lparr>Bus = ''/dev/i2c-7'', Name = ''DELL U4021QW'',
          Config = Some \<lparr>Model = ''Dell U4021QW'', Match = ''U4021QW'',
            Features = [(''input_source'',
              \<lparr>VCP = ''0x60'', Values = [(''DP'', ''0x0f''), (''HDMI1'', ''0x11'')]\<rparr>)],
            Presets = []\<rparr>\<rparr>
        ''input_source'' ''HDMI1'' \<lparr>script = [], trace = []\<rparr>)
      = Some (Errorf ''invalid value HDMI1 for input_source. Options: map[DP:0x0f HDMI1:0x11]'')"
  by code_simp


lemma applyFeature_resolution_witness:
  "fst (applyFeature
        \<lparr>Bus = ''/dev/i2c-7'', Name = ''DELL U4021QW'',
          Config = Some \<lparr>Model = ''Dell U4021QW'', Match = ''U4021QW'',
            Features = [(''input_source'',
              \<lparr>VCP = ''0x60'', Values = [(''hdmi1'', ''0x11''), (''dp'', ''0x0f'')]\<rparr>)],
            Presets = []\<rparr>\<rparr>
        ''usb_selection'' ''pc1'' \<lparr>script = [], trace = []\<rparr>)
      = Some (Errorf ''feature usb_selection not defined'')
   \<and> ToLower ''hdmi1'' = ToLower ''HDMI1''
   \<and> trace (snd (applyFeature
        \<lparr>Bus = ''/dev/i2c-7'', Name = ''DELL U4021QW'',
          Config = Some \<lparr>Model = ''Dell U4021QW'', Match = ''U4021QW'',
            Features = [(''input_source'',
              \<lparr>VCP = ''0x60'', Values = [(''hdmi1'', ''0x11''), (''dp'', ''0x0f'')]\<rparr>)],
            Presets = []\<rparr>\<rparr>
        ''input_source'' ''HDMI1'' \<lparr>script = [], trace = []\<rparr>))
      = [Call_applyFeature ''input_source'' ''HDMI1'',
         Write ''/dev/i2c-7'' [0x51, 0x84, 0x03, 0x60, 0x00, 0x11, 0xC9]]
   \<and> trace (snd (applyFeature
        \<lparr>Bus = ''/dev/i2c-7'', Name = ''DELL U4021QW'',
          Config = Some \<lparr>Model = ''Dell U4021QW'', Match = ''U4021QW'',
            Features = [(''input_source'',
              \<lparr>VCP = ''0x60'', Values = [(''hdmi1'', ''0x11''), (''dp'', ''0x0f'')]\<rparr>)],
            Presets = []\<rparr>\<rparr>
        ''input_source'' ''hdmi1'' \<lparr>script = [], trace = []\<rparr>))
      = [Call_applyFeature ''input_source'' ''hdmi1'',
         Write ''/dev/i2c-7'' [0x51, 0x84, 0x03, 0x60, 0x00, 0x11, 0xC9]]
   \<and> fst (applyFeature
        \<lparr>Bus = ''/dev/i2c-7'', Name = ''DELL U4021QW'',
          Config = Some \<lparr>Model = ''Dell U4021QW'', Match = ''U4021QW'',
            Features = [(''input_source'',
              \<lparr>VCP = ''0x60'', Values = [(''hdmi1'', ''0x11''), (''dp'', ''0x0f'')]\<rparr>)],
            Presets = []\<rparr>\<rparr>
        ''input_source'' ''vga'' \<lparr>script = [], trace = []\<rparr>)
      = Some (Errorf ''invalid value vga for input_source. Options: map[dp:0x0f hdmi1:0x11]'')
   \<and> sublist ''hdmi1'' ''invalid value vga for input_source. Options: map[dp:0x0f hdmi1:0x11]''"
proof -
  let ?f = "\<lparr>VCP = ''0x60'', Values = [(''hdmi1'', ''0x11''), (''dp'', ''0x0f'')]\<rparr>"
  let ?c = "\<lparr>Model = ''Dell U4021QW'', Match = ''U4021QW'',
             Features = [(''input_source'', ?f)], Presets = []\<rparr>"
  let ?d = "\<lparr>Bus = ''/dev/i2c-7'', Name = ''DELL U4021QW'', Config = Some ?c\<rparr>"
  let ?w = "\<lparr>script = [], trace = []\<rparr>"
  have cfg: "Config ?d = Some ?c" by simp
  have absent: "map_of (Features ?c) ''usb_selection'' = None" by simp
  have present: "map_of (Features ?c) ''input_source'' = Some ?f" by simp
  have low: "ToLower ''hdmi1'' = ToLower ''HDMI1''" by code_simp
  have found: "map_of (Values ?f) (ToLower ''HDMI1'') = Some ''0x11''" by code_simp
  have missing: "map_of (Values ?f) (ToLower ''vga'') = None" by code_simp
  have fm: "fmt_map (Values ?f) = ''map[dp:0x0f hdmi1:0x11]''" by code_simp
  have code: "parseHex (VCP ?f) = 0x60" and val: "parseHex16 ''0x11'' = 0x11" by code_simp+
  have wr: "snd (setVCP ''/dev/i2c-7'' 0x60 0x11 (emit (Call_applyFeature ''input_source'' l) ?w))
            = \<lparr>script = [], trace = [Call_applyFeature ''input_source'' l,
                 Write ''/dev/i2c-7'' [0x51, 0x84, 0x03, 0x60, 0x00, 0x11, 0xC9]]\<rparr>" for l
    by (simp add: setVCP_def syscall_def emit_def setVCP_write.simps setVCP_frame_example2)
  note a = applyFeature_resolution [OF cfg, of "''usb_selection''" "''pc1''" ?w]
  note b = applyFeature_resolution [OF cfg, of "''input_source''" "''HDMI1''" ?w]
  note c = applyFeature_resolution [OF cfg, of "''input_source''" "''vga''" ?w]
  have r1: "fst (applyFeature ?d ''usb_selection'' ''pc1'' ?w)
            = Some (Errorf ''feature usb_selection not defined'')"
    using a absent by simp
  have b': "applyFeature ?d ''input_source'' ''HDMI1'' ?w
            = setVCP (Bus ?d) (parseHex (VCP ?f)) (parseHex16 ''0x11'')
                (emit (Call_applyFeature ''input_source'' ''HDMI1'') ?w)
          \<and> applyFeature ?d ''input_source'' ''hdmi1'' ?w
            = setVCP (Bus ?d) (parseHex (VCP ?f)) (parseHex16 ''0x11'')
                (emit (Call_applyFeature ''input_source'' ''hdmi1'') ?w)"
    using b present found low by blast
  have r2: "trace (snd (applyFeature ?d ''input_source'' ''HDMI1'' ?w))
            = [Call_applyFeature ''input_source'' ''HDMI1'',
               Write ''/dev/i2c-7'' [0x51, 0x84, 0x03, 0x60, 0x00, 0x11, 0xC9]]"
    using b' by (simp only: code val wr Device.simps world.simps)
  have r3: "trace (snd (applyFeature ?d ''input_source'' ''hdmi1'' ?w))
            = [Call_applyFeature ''input_source'' ''hdmi1'',
               Write ''/dev/i2c-7'' [0x51, 0x84, 0x03, 0x60, 0x00, 0x11, 0xC9]]"
    using b' by (simp only: code val wr Device.simps world.simps)
  have c': "applyFeature ?d ''input_source'' ''vga'' ?w
            = (Some (Errorf (''invalid value '' @ ''vga'' @ '' for '' @ ''input_source''
                             @ ''. Options: '' @ fmt_map (Values ?f))),
               emit (Call_applyFeature ''input_source'' ''vga'') ?w)
          \<and> (\<forall>label \<in> fst ` set (Values ?f).
                sublist label (''invalid value '' @ ''vga'' @ '' for '' @ ''input_source''
                               @ ''. Options: '' @ fmt_map (Values ?f)))"
    using c present missing by blast
  have msg: "''invalid value '' @ ''vga'' @ '' for '' @ ''input_source''
               @ ''. Options: '' @ fmt_map (Values ?f)
             = ''invalid value vga for input_source. Options: map[dp:0x0f hdmi1:0x11]''"
    unfolding fm by simp
  have r4: "fst (applyFeature ?d ''input_source'' ''vga'' ?w)
            = Some (Errorf ''invalid value vga for input_source. Options: map[dp:0x0f hdmi1:0x11]'')"
    using c' unfolding msg by simp
  have "''hdmi1'' \<in> fst ` set (Values ?f)" by simp
  with c' have r5: "sublist ''hdmi1''
      ''invalid value vga for input_source. Options: map[dp:0x0f hdmi1:0x11]''"
    unfolding msg by blast
  from r1 low r2 r3 r4 r5 show ?thesis by (intro conjI)
qed


section \<open>The two reply layouts\<close>




















end
